theory Spec2Isabelle
  imports Complex_Main "HOL-Library.Word"
begin

section \<open>The MQL grouping engine: data model\<close>

text \<open>
  The embedding follows \<^verbatim>\<open>src/engines/matching/v1.ts\<close> together with the schema
  declarations it imports (\<^verbatim>\<open>schema/courses/courses.ts\<close>, \<^verbatim>\<open>schema/mql/mql.ts\<close>,
  \<^verbatim>\<open>errors.ts\<close>).

  \<^verbatim>\<open>U16\<close> is declared as \<^verbatim>\<open>number\<close> in the TypeScript port of the Rust structs; the
  values that occur are the integers from 0 to 65535, so a 16-bit word is used. The engine
  never does arithmetic on such a value except the subtraction inside the sort comparator,
  which is carried out on \<^typ>\<open>int\<close> (a JavaScript number does not wrap).
\<close>

type_synonym U16 = "16 word"

text \<open>
  A JavaScript object has an identity besides its contents, and \<^verbatim>\<open>Set\<close> compares
  objects by identity. Every catalog entry therefore carries an object identifier. Two
  entries with the same identifier are the same object, hence have the same contents.
\<close>

type_synonym oid = nat

type_synonym UUID = string

text \<open>
  Of a \<^verbatim>\<open>Course\<close> the fields \<^verbatim>\<open>codes\<close>, \<^verbatim>\<open>tags\<close> and the optional \<^verbatim>\<open>dist\<close> are read by
  the engine. The remaining attributes (credit, seasons, season codes, version, external
  id, description) are never inspected by it and are left out; \<^verbatim>\<open>title\<close> stands for them.
\<close>

record Course =
  codes :: "string list"
  tags :: "string list"
  title :: string
  dist :: "string list option"

record ManualFulfillment =
  filled :: bool
  id_mf :: UUID
  description :: string

text \<open>
  \<^verbatim>\<open>CourseList = Array<Course | ManualFulfillment>\<close>. The Query selector stores a whole
  result array as one element of such a list (behind an \<^verbatim>\<open>as any\<close>-style cast of the
  element type, see \<^verbatim>\<open>queryQuery\<close>), hence the third alternative.
\<close>

datatype entry =
    Course oid Course
  | ManualFulfillment oid ManualFulfillment
  | Nested oid "entry list"

type_synonym CourseList = "entry list"

datatype MQLQueryType = Select | Limit

datatype Quantity = Single U16 | Many U16 U16

record Class =
  department_id :: string
  course_number :: U16
  lab :: bool

text \<open>
  A selector is an object with exactly one of ten keys; the key is the constructor.
  \<^verbatim>\<open>Range\<close> is written \<open>Range_sel\<close> because \<open>Range\<close> is the range of a relation in HOL.
\<close>

datatype Selector =
    Class Class
  | Placement string
  | Tag string
  | TagCode string string
  | Dist string
  | DistCode string string
  | Range_sel Class Class
  | RangeDist Class Class string
  | RangeTag Class Class string
  | Query MQLQuery
and MQLQuery =
    MQLQuery (quantity: Quantity) (type: MQLQueryType) (selector: "Selector list")

record MQLRequirement =
  query :: MQLQuery
  description :: string
  priority :: U16

record MQLQueryFile =
  version :: string
  requirements :: "MQLRequirement list"

text \<open>
  \<^verbatim>\<open>MatchingError\<close>: the optional fields \<^verbatim>\<open>expectedCount\<close> and \<^verbatim>\<open>actualCount\<close> are never
  set by this engine and are left out.
\<close>

record MatchingError =
  requirement :: string
  message :: string

record QueryResult =
  requirement :: MQLRequirement
  selectedCourses :: CourseList

record MatchingEvaluationResult =
  results :: "QueryResult list"
  allSelectedCourses :: CourseList


section \<open>The JavaScript runtime\<close>

text \<open>
  The result of \<^verbatim>\<open>Number(s)\<close> is a double: not-a-number, an infinity, or a finite value,
  which is a rational number.
\<close>

datatype js_number = NaN | Finite rat | PosInfinity | NegInfinity

text \<open>The relational operator \<^verbatim>\<open><=\<close> on numbers: false as soon as one side is NaN.\<close>

fun js_le :: "js_number \<Rightarrow> js_number \<Rightarrow> bool" where
  "js_le NaN _ = False"
| "js_le _ NaN = False"
| "js_le NegInfinity _ = True"
| "js_le _ PosInfinity = True"
| "js_le PosInfinity _ = False"
| "js_le _ NegInfinity = False"
| "js_le (Finite a) (Finite b) = (a \<le> b)"

definition number_of_U16 :: "U16 \<Rightarrow> js_number" where
  "number_of_U16 n = Finite (of_nat (unat n))"

text \<open>
  The built-in functions the engine calls are parameters of the embedding, so that every
  theorem holds whatever they compute:
  \<^item> \<^verbatim>\<open>String.prototype.toLowerCase\<close>;
  \<^item> \<^verbatim>\<open>Number\<close> applied to a string;
  \<^item> \<^verbatim>\<open>JSON.stringify\<close> applied to a query (used in error reports only);
  \<^item> \<^verbatim>\<open>crypto.randomUUID\<close>: \<open>randomUUID rt k\<close> is the value returned by the call number
    \<open>k\<close> (counted from 0) made during one invocation of the engine.
\<close>

record runtime =
  toLowerCase :: "string \<Rightarrow> string"
  Number :: "string \<Rightarrow> js_number"
  JSON_stringify :: "MQLQuery \<Rightarrow> string"
  randomUUID :: "nat \<Rightarrow> UUID"

text \<open>
  What one invocation has consumed so far: the number of objects it has created that end
  up as elements of a \<^verbatim>\<open>CourseList\<close> (the next one gets this number as its identifier),
  and the number of UUIDs it has drawn.
\<close>

record world =
  allocated :: nat
  drawn :: nat

definition initial_world :: world where
  "initial_world = \<lparr>allocated = 0, drawn = 0\<rparr>"

text \<open>\<^verbatim>\<open>String(mql)\<close> for an object without its own \<^verbatim>\<open>toString\<close>.\<close>

definition String_of_object :: string where
  "String_of_object = ''[object Object]''"

text \<open>
  Template-literal conversion of a \<^verbatim>\<open>U16\<close> to a string: the decimal digits, without
  leading zeros.
\<close>

fun decimal :: "nat \<Rightarrow> string" where
  "decimal n =
     (if n < 10 then [''0123456789'' ! n]
      else decimal (n div 10) @ [''0123456789'' ! (n mod 10)])"

declare decimal.simps [simp del]

text \<open>\<^verbatim>\<open>s.split(' ')\<close>: cut at every space; the result is never empty.\<close>

fun split_space :: "string \<Rightarrow> string list" where
  "split_space [] = [[]]"
| "split_space (c # cs) =
     (if c = CHR '' '' then [] # split_space cs
      else (case split_space cs of
              [] \<Rightarrow> [[c]]
            | w # ws \<Rightarrow> (c # w) # ws))"

text \<open>
  \<^verbatim>\<open>Set.prototype.add\<close> on a set kept in insertion order; spreading the set
  (\<^verbatim>\<open>[...s]\<close>, \<^verbatim>\<open>Array.from(s)\<close>) yields this list.
\<close>

definition Set_add :: "'a list \<Rightarrow> 'a \<Rightarrow> 'a list" where
  "Set_add s x = (if x \<in> set s then s else s @ [x])"

text \<open>\<^verbatim>\<open>for (const x of xs) s.add(x)\<close>\<close>

definition Set_add_all :: "'a list \<Rightarrow> 'a list \<Rightarrow> 'a list" where
  "Set_add_all s xs = fold (\<lambda>x acc. Set_add acc x) xs s"

text \<open>
  \<^verbatim>\<open>Array.prototype.sort(cmp)\<close> is stable (ECMAScript 2019). For a comparator that is a
  consistent ordering the outcome is determined: it is the one of a stable insertion
  sort, in which an element goes in front of the first element it does not exceed.
\<close>

fun sort_insert :: "('a \<Rightarrow> 'a \<Rightarrow> int) \<Rightarrow> 'a \<Rightarrow> 'a list \<Rightarrow> 'a list" where
  "sort_insert cmp x [] = [x]"
| "sort_insert cmp x (y # ys) =
     (if cmp x y \<le> 0 then x # y # ys else y # sort_insert cmp x ys)"

definition Array_sort :: "('a \<Rightarrow> 'a \<Rightarrow> int) \<Rightarrow> 'a list \<Rightarrow> 'a list" where
  "Array_sort cmp xs = foldr (sort_insert cmp) xs []"


section \<open>Selector evaluation (class QueryMatcher)\<close>

text \<open>\<^verbatim>\<open>Result<T, E>\<close> of \<^verbatim>\<open>errors.ts\<close> is the sum \<open>E + T\<close>.\<close>

abbreviation ok :: "'a \<Rightarrow> 'e + 'a" where
  "ok data \<equiv> Inr data"

abbreviation err :: "'e \<Rightarrow> 'e + 'a" where
  "err error \<equiv> Inl error"

text \<open>
  Every handler starts with a guard on the key of the selector it is given
  (\<^verbatim>\<open>if (!('Class' in selector)) return err(...)\<close>).
\<close>

definition TypeError :: "string \<Rightarrow> MatchingError" where
  "TypeError kind =
     \<lparr>MatchingError.requirement = String_of_object,
      message = ''TypeError: Expected .kind = '' @ [CHR 0x22] @ kind @ [CHR 0x22]\<rparr>"

definition queryClass ::
  "runtime \<Rightarrow> MQLQuery \<Rightarrow> Selector \<Rightarrow> CourseList \<Rightarrow> MatchingError + CourseList" where
  "queryClass rt mql sel courseList =
     (case sel of
        Class c \<Rightarrow>
          (let fmt = department_id c @ '' '' @ decimal (unat (course_number c));
               maybeCourses =
                 filter (\<lambda>course. case course of
                                     Course _ k \<Rightarrow> fmt \<in> set (codes k)
                                   | _ \<Rightarrow> False) courseList
           in if length maybeCourses = 0
              then err \<lparr>MatchingError.requirement = JSON_stringify rt mql,
                        message = fmt @ '' not found in catalog''\<rparr>
              else ok maybeCourses)
      | _ \<Rightarrow> err (TypeError ''Class''))"

text \<open>
  \<^verbatim>\<open>queryPlacement\<close> creates one object and draws one UUID; it is the only handler besides
  \<^verbatim>\<open>queryQuery\<close> that changes the world.
\<close>

definition queryPlacement ::
  "runtime \<Rightarrow> MQLQuery \<Rightarrow> Selector \<Rightarrow> CourseList \<Rightarrow> world
     \<Rightarrow> (MatchingError + CourseList) \<times> world" where
  "queryPlacement rt mql sel courseList w =
     (case sel of
        Placement d \<Rightarrow>
          (let placement =
                 \<lparr>filled = False, id_mf = randomUUID rt (drawn w),
                  ManualFulfillment.description = d\<rparr>
           in (ok [ManualFulfillment (allocated w) placement],
               \<lparr>allocated = Suc (allocated w), drawn = Suc (drawn w)\<rparr>))
      | _ \<Rightarrow> (err (TypeError ''Placement''), w))"

text \<open>
  \<^verbatim>\<open>'dist' in course && course.dist?.map(d => d.toLowerCase())?.includes?.(dist)\<close>
\<close>

definition has_dist :: "runtime \<Rightarrow> string \<Rightarrow> Course \<Rightarrow> bool" where
  "has_dist rt d k =
     (case dist k of
        None \<Rightarrow> False
      | Some ds \<Rightarrow> d \<in> set (map (toLowerCase rt) ds))"

definition queryDist ::
  "runtime \<Rightarrow> MQLQuery \<Rightarrow> Selector \<Rightarrow> CourseList \<Rightarrow> MatchingError + CourseList" where
  "queryDist rt mql sel courseList =
     (case sel of
        Dist target \<Rightarrow>
          (let d = toLowerCase rt target;
               maybeCourses =
                 filter (\<lambda>course. case course of
                                     Course _ k \<Rightarrow> has_dist rt d k
                                   | _ \<Rightarrow> False) courseList
           in if length maybeCourses = 0
              then err \<lparr>MatchingError.requirement = JSON_stringify rt mql,
                        message = ''DIST('' @ target @ '') not found in catalog''\<rparr>
              else ok maybeCourses)
      | _ \<Rightarrow> err (TypeError ''Dist''))"

text \<open>\<^verbatim>\<open>course.codes.some((code) => code.split(' ')[0] === dep)\<close>\<close>

definition some_code_in_department :: "string \<Rightarrow> Course \<Rightarrow> bool" where
  "some_code_in_department dep k =
     list_ex (\<lambda>code. case split_space code of
                       [] \<Rightarrow> False
                     | d # _ \<Rightarrow> d = dep) (codes k)"

definition queryDistCode ::
  "runtime \<Rightarrow> MQLQuery \<Rightarrow> Selector \<Rightarrow> CourseList \<Rightarrow> MatchingError + CourseList" where
  "queryDistCode rt mql sel courseList =
     (case sel of
        DistCode target dep \<Rightarrow>
          (let d = toLowerCase rt target;
               courseFilter =
                 (\<lambda>course. case course of
                              Course _ k \<Rightarrow>
                                (if dist k = None then False
                                 else some_code_in_department dep k \<and> has_dist rt d k)
                            | _ \<Rightarrow> False);
               maybeCourses = filter courseFilter courseList
           in if length maybeCourses = 0
              then err \<lparr>MatchingError.requirement = JSON_stringify rt mql,
                        message = ''DIST_DEPT('' @ target @ '', '' @ dep
                                    @ '') not found in catalog''\<rparr>
              else ok maybeCourses)
      | _ \<Rightarrow> err (TypeError ''DistCode''))"

text \<open>
  The body of the \<^verbatim>\<open>for\<close> loop in \<^verbatim>\<open>queryRange\<close> over the split codes of one course:
  \<open>True\<close> when the callback returns \<^verbatim>\<open>[course]\<close>, \<open>False\<close> when it returns \<^verbatim>\<open>[]\<close>.
  A code that does not split into exactly two parts ends the loop with \<^verbatim>\<open>return []\<close>.
\<close>

fun range_scan :: "runtime \<Rightarrow> Class \<Rightarrow> Class \<Rightarrow> string list list \<Rightarrow> bool" where
  "range_scan rt from to [] = False"
| "range_scan rt from to (maybeSplit # rest) =
     (case maybeSplit of
        [dep, numStr] \<Rightarrow>
          (let num = Number rt numStr
           in if dep \<noteq> department_id from then range_scan rt from to rest
              else if js_le (number_of_U16 (course_number from)) num
                      \<and> js_le num (number_of_U16 (course_number to))
                   then True
                   else range_scan rt from to rest)
      | _ \<Rightarrow> False)"

definition queryRange ::
  "runtime \<Rightarrow> MQLQuery \<Rightarrow> Selector \<Rightarrow> CourseList \<Rightarrow> MatchingError + CourseList" where
  "queryRange rt mql sel courseList =
     (case sel of
        Range_sel from to \<Rightarrow>
          if department_id from \<noteq> department_id to
          then err \<lparr>MatchingError.requirement = String_of_object,
                    message = ''RANGE on different department IDs: '' @ department_id from
                                @ '' != '' @ department_id to\<rparr>
          else
            (let maybeCourses =
                   concat (map (\<lambda>course. case course of
                                            Course _ k \<Rightarrow>
                                              (if range_scan rt from to (map split_space (codes k))
                                               then [course] else [])
                                          | _ \<Rightarrow> []) courseList)
             in if length maybeCourses = 0
                then err \<lparr>MatchingError.requirement = JSON_stringify rt mql,
                          message = ''RANGE('' @ department_id from
                                      @ decimal (unat (course_number from)) @ '', ''
                                      @ department_id to
                                      @ decimal (unat (course_number to))
                                      @ '') not found in catalog''\<rparr>
                else ok maybeCourses)
      | _ \<Rightarrow> err (TypeError ''Range''))"

definition queryRangeDist ::
  "runtime \<Rightarrow> MQLQuery \<Rightarrow> Selector \<Rightarrow> CourseList \<Rightarrow> MatchingError + CourseList" where
  "queryRangeDist rt mql sel courseList =
     (case sel of
        RangeDist _ _ _ \<Rightarrow>
          err \<lparr>MatchingError.requirement = String_of_object,
               message = ''queryRangeDist: unimplemented''\<rparr>
      | _ \<Rightarrow> err (TypeError ''RangeDist''))"

definition queryRangeTag ::
  "runtime \<Rightarrow> MQLQuery \<Rightarrow> Selector \<Rightarrow> CourseList \<Rightarrow> MatchingError + CourseList" where
  "queryRangeTag rt mql sel courseList =
     (case sel of
        RangeTag _ _ _ \<Rightarrow>
          err \<lparr>MatchingError.requirement = String_of_object,
               message = ''queryRangeTag: unimplemented''\<rparr>
      | _ \<Rightarrow> err (TypeError ''RangeTag''))"

definition queryTag ::
  "runtime \<Rightarrow> MQLQuery \<Rightarrow> Selector \<Rightarrow> CourseList \<Rightarrow> MatchingError + CourseList" where
  "queryTag rt mql sel courseList =
     (case sel of
        Tag tag \<Rightarrow>
          (let maybeCourses =
                 filter (\<lambda>course. case course of
                                     Course _ k \<Rightarrow> tag \<in> set (tags k)
                                   | _ \<Rightarrow> False) courseList
           in if length maybeCourses = 0
              then err \<lparr>MatchingError.requirement = JSON_stringify rt mql,
                        message = ''TAG('' @ tag @ '') not found in catalog''\<rparr>
              else ok maybeCourses)
      | _ \<Rightarrow> err (TypeError ''Tag''))"

definition queryTagCode ::
  "runtime \<Rightarrow> MQLQuery \<Rightarrow> Selector \<Rightarrow> CourseList \<Rightarrow> MatchingError + CourseList" where
  "queryTagCode rt mql sel courseList =
     (case sel of
        TagCode tag dep \<Rightarrow>
          (let maybeCourses =
                 filter (\<lambda>course. case course of
                                     Course _ k \<Rightarrow>
                                       some_code_in_department dep k \<and> tag \<in> set (tags k)
                                   | _ \<Rightarrow> False) courseList
           in if length maybeCourses = 0
              then err \<lparr>MatchingError.requirement = JSON_stringify rt mql,
                        message = ''TAG_DEPT('' @ tag @ '', '' @ dep
                                    @ '') not found in catalog''\<rparr>
              else ok maybeCourses)
      | _ \<Rightarrow> err (TypeError ''TagCode''))"


section \<open>Query evaluation\<close>

text \<open>
  \<^verbatim>\<open>matchFlatten\<close> calls the handler of each selector through \<^verbatim>\<open>selectorVTable\<close>, and the
  handler \<^verbatim>\<open>queryQuery\<close> calls \<^verbatim>\<open>this.match(courseList, query, false)\<close>, which is
  \<^verbatim>\<open>matchFlatten\<close> on the nested query: a mutual recursion over the selector tree.
  \<open>matchFlatten_loop\<close> is the \<^verbatim>\<open>for\<close> loop of \<^verbatim>\<open>matchFlatten\<close> over the selectors that
  remain, with the set \<^verbatim>\<open>flattened\<close> built so far. The array that \<^verbatim>\<open>queryQuery\<close> wraps
  becomes an element of a list, so it receives an object identifier.

  The branch \<^verbatim>\<open>if (!handler)\<close> cannot be taken: the table has an entry for each key.
\<close>

fun matchFlatten_loop ::
  "runtime \<Rightarrow> CourseList \<Rightarrow> MQLQuery \<Rightarrow> Selector list \<Rightarrow> CourseList \<Rightarrow> world
     \<Rightarrow> (MatchingError + CourseList) \<times> world"
and selectorVTable ::
  "runtime \<Rightarrow> MQLQuery \<Rightarrow> Selector \<Rightarrow> CourseList \<Rightarrow> world
     \<Rightarrow> (MatchingError + CourseList) \<times> world"
where
  "matchFlatten_loop rt courseList mql [] flattened w = (ok flattened, w)"
| "matchFlatten_loop rt courseList mql (sel # rest) flattened w =
     (case selectorVTable rt mql sel courseList w of
        (Inl e, w') \<Rightarrow> (Inl e, w')
      | (Inr data, w') \<Rightarrow>
          matchFlatten_loop rt courseList mql rest (Set_add_all flattened data) w')"
| "selectorVTable rt mql (Query (MQLQuery qn ty sels)) courseList w =
     (case matchFlatten_loop rt courseList (MQLQuery qn ty sels) sels [] w of
        (Inl e, w') \<Rightarrow> (Inl e, w')
      | (Inr data, w') \<Rightarrow>
          (ok [Nested (allocated w') data], w'\<lparr>allocated := Suc (allocated w')\<rparr>))"
| "selectorVTable rt mql (Class c) courseList w = (queryClass rt mql (Class c) courseList, w)"
| "selectorVTable rt mql (Placement d) courseList w =
     queryPlacement rt mql (Placement d) courseList w"
| "selectorVTable rt mql (Tag t) courseList w = (queryTag rt mql (Tag t) courseList, w)"
| "selectorVTable rt mql (TagCode t c) courseList w =
     (queryTagCode rt mql (TagCode t c) courseList, w)"
| "selectorVTable rt mql (Dist d) courseList w = (queryDist rt mql (Dist d) courseList, w)"
| "selectorVTable rt mql (DistCode d c) courseList w =
     (queryDistCode rt mql (DistCode d c) courseList, w)"
| "selectorVTable rt mql (Range_sel a b) courseList w =
     (queryRange rt mql (Range_sel a b) courseList, w)"
| "selectorVTable rt mql (RangeDist a b d) courseList w =
     (queryRangeDist rt mql (RangeDist a b d) courseList, w)"
| "selectorVTable rt mql (RangeTag a b t) courseList w =
     (queryRangeTag rt mql (RangeTag a b t) courseList, w)"

definition matchFlatten ::
  "runtime \<Rightarrow> CourseList \<Rightarrow> MQLQuery \<Rightarrow> world \<Rightarrow> (MatchingError + CourseList) \<times> world" where
  "matchFlatten rt courseList mql w =
     matchFlatten_loop rt courseList mql (selector mql) [] w"

definition matchTop ::
  "runtime \<Rightarrow> CourseList \<Rightarrow> MQLQuery \<Rightarrow> world \<Rightarrow> (MatchingError + CourseList) \<times> world" where
  "matchTop rt courseList mql w =
     (case selector mql of
        [rootQuery] \<Rightarrow> selectorVTable rt mql rootQuery courseList w
      | _ \<Rightarrow> (err \<lparr>MatchingError.requirement = ''MQL structure'',
                    message = ''top level MQL should have one query''\<rparr>, w))"

text \<open>\<^verbatim>\<open>QueryMatcher.match(courseList, mql, limitOne = false)\<close>\<close>

definition QueryMatcher_match ::
  "runtime \<Rightarrow> CourseList \<Rightarrow> MQLQuery \<Rightarrow> bool \<Rightarrow> world
     \<Rightarrow> (MatchingError + CourseList) \<times> world" where
  "QueryMatcher_match rt courseList mql limitOne w =
     (if limitOne then matchTop rt courseList mql w else matchFlatten rt courseList mql w)"

text \<open>
  \<^verbatim>\<open>queryQuery\<close> as the source writes it, on top of \<^verbatim>\<open>this.match\<close>; lemma
  \<open>selectorVTable_Query\<close> below shows that it is what the table calls.
\<close>

definition queryQuery ::
  "runtime \<Rightarrow> MQLQuery \<Rightarrow> Selector \<Rightarrow> CourseList \<Rightarrow> world
     \<Rightarrow> (MatchingError + CourseList) \<times> world" where
  "queryQuery rt mql sel courseList w =
     (case sel of
        Query q \<Rightarrow>
          (case QueryMatcher_match rt courseList q False w of
             (Inl e, w') \<Rightarrow> (Inl e, w')
           | (Inr data, w') \<Rightarrow>
               (ok [Nested (allocated w') data], w'\<lparr>allocated := Suc (allocated w')\<rparr>))
      | _ \<Rightarrow> (err (TypeError ''Range''), w))"


section \<open>Requirement resolution (class MQLMatcher)\<close>

text \<open>The comparator \<^verbatim>\<open>(a, b) => b.priority - a.priority\<close>.\<close>

definition by_priority :: "MQLRequirement \<Rightarrow> MQLRequirement \<Rightarrow> int" where
  "by_priority a b = int (unat (priority b)) - int (unat (priority a))"

definition sortedRequirements :: "MQLQueryFile \<Rightarrow> MQLRequirement list" where
  "sortedRequirements mql = Array_sort by_priority (requirements mql)"

text \<open>
  The loop over the sorted requirements, with the three accumulators \<^verbatim>\<open>errors\<close>,
  \<^verbatim>\<open>usedCourses\<close> and \<^verbatim>\<open>results\<close> (written \<open>rs\<close>).
\<close>

fun match_loop ::
  "runtime \<Rightarrow> CourseList \<Rightarrow> MQLRequirement list
     \<Rightarrow> MatchingError list \<times> CourseList \<times> QueryResult list \<Rightarrow> world
     \<Rightarrow> (MatchingError list \<times> CourseList \<times> QueryResult list) \<times> world" where
  "match_loop rt courseList [] acc w = (acc, w)"
| "match_loop rt courseList (req # rest) (errors, usedCourses, rs) w =
     (case QueryMatcher_match rt courseList (query req) False w of
        (Inl e, w') \<Rightarrow>
          match_loop rt courseList rest (errors @ [e], usedCourses, rs) w'
      | (Inr data, w') \<Rightarrow>
          match_loop rt courseList rest
            (errors, Set_add_all usedCourses data,
             rs @ [\<lparr>QueryResult.requirement = req, selectedCourses = data\<rparr>]) w')"

definition MQLMatcher_match ::
  "runtime \<Rightarrow> CourseList \<Rightarrow> MQLQueryFile
     \<Rightarrow> MatchingError list + MatchingEvaluationResult" where
  "MQLMatcher_match rt courseList mql =
     (case match_loop rt courseList (sortedRequirements mql) ([], [], []) initial_world of
        ((errors, usedCourses, rs), _) \<Rightarrow>
          (let evaluationResult =
                 \<lparr>MatchingEvaluationResult.results = rs,
                  allSelectedCourses = usedCourses\<rparr>
           in if length errors = 0 then ok evaluationResult else err errors))"

definition matchCourses ::
  "runtime \<Rightarrow> CourseList \<Rightarrow> MQLQueryFile
     \<Rightarrow> MatchingError list + MatchingEvaluationResult" where
  "matchCourses rt courseList mql = MQLMatcher_match rt courseList mql"


section \<open>Notions used in the statements\<close>

text \<open>The error of an evaluation, if it failed.\<close>

definition err_of :: "('e + 'a) \<times> world \<Rightarrow> 'e option" where
  "err_of r = (case fst r of Inl e \<Rightarrow> Some e | Inr _ \<Rightarrow> None)"

text \<open>
  The error, if any, of evaluating the query of one requirement the way the resolver does
  (\<^verbatim>\<open>queryMatcher.match(courseList, requirement.query)\<close>), started in world \<open>w\<close>.
\<close>

definition requirement_error ::
  "runtime \<Rightarrow> CourseList \<Rightarrow> world \<Rightarrow> MQLRequirement \<Rightarrow> MatchingError option" where
  "requirement_error rt cl w req = err_of (QueryMatcher_match rt cl (query req) False w)"


text \<open>The department of a code: the text in front of its first space.\<close>

definition code_department :: "string \<Rightarrow> string" where
  "code_department code = takeWhile (\<lambda>c. c \<noteq> CHR '' '') code"

text \<open>
  What the DistCode and TagCode selectors select: the courses of which some code has the
  given department and which carry the distribution tag (compared in lower case), or the
  topic tag (compared as it is).
\<close>

definition DistCode_matches :: "runtime \<Rightarrow> string \<Rightarrow> string \<Rightarrow> entry \<Rightarrow> bool" where
  "DistCode_matches rt target dep course =
     (case course of
        Course _ k \<Rightarrow>
          dep \<in> set (map code_department (codes k))
          \<and> (case dist k of
                None \<Rightarrow> False
              | Some ds \<Rightarrow> toLowerCase rt target \<in> set (map (toLowerCase rt) ds))
      | _ \<Rightarrow> False)"

definition TagCode_matches :: "string \<Rightarrow> string \<Rightarrow> entry \<Rightarrow> bool" where
  "TagCode_matches tag dep course =
     (case course of
        Course _ k \<Rightarrow> dep \<in> set (map code_department (codes k)) \<and> tag \<in> set (tags k)
      | _ \<Rightarrow> False)"

text \<open>
  The reading in which only the first code of a course counts: the department of the
  first code must be the given one.
\<close>

definition first_code_department :: "Course \<Rightarrow> string option" where
  "first_code_department k =
     (case codes k of [] \<Rightarrow> None | code # _ \<Rightarrow> Some (code_department code))"

definition DistCode_matches_first_code :: "runtime \<Rightarrow> string \<Rightarrow> string \<Rightarrow> entry \<Rightarrow> bool" where
  "DistCode_matches_first_code rt target dep course =
     (case course of
        Course _ k \<Rightarrow>
          first_code_department k = Some dep
          \<and> (case dist k of
                None \<Rightarrow> False
              | Some ds \<Rightarrow> toLowerCase rt target \<in> set (map (toLowerCase rt) ds))
      | _ \<Rightarrow> False)"

definition TagCode_matches_first_code :: "string \<Rightarrow> string \<Rightarrow> entry \<Rightarrow> bool" where
  "TagCode_matches_first_code tag dep course =
     (case course of
        Course _ k \<Rightarrow> first_code_department k = Some dep \<and> tag \<in> set (tags k)
      | _ \<Rightarrow> False)"

text \<open>
  A code lies in a range when it splits into exactly a department and a number, the
  department is the one of the range and the number, as \<^verbatim>\<open>Number\<close> reads it, lies between
  the two course numbers, bounds included.
\<close>

definition code_in_range :: "runtime \<Rightarrow> Class \<Rightarrow> Class \<Rightarrow> string \<Rightarrow> bool" where
  "code_in_range rt from to code =
     (case split_space code of
        [dep, numStr] \<Rightarrow>
          dep = department_id from
          \<and> js_le (number_of_U16 (course_number from)) (Number rt numStr)
          \<and> js_le (Number rt numStr) (number_of_U16 (course_number to))
      | _ \<Rightarrow> False)"

text \<open>The reading in which any code of the course may lie in the range.\<close>

definition Range_matches_any_code :: "runtime \<Rightarrow> Class \<Rightarrow> Class \<Rightarrow> entry \<Rightarrow> bool" where
  "Range_matches_any_code rt from to course =
     (case course of
        Course _ k \<Rightarrow> list_ex (code_in_range rt from to) (codes k)
      | _ \<Rightarrow> False)"

text \<open>
  What the Range selector selects: the courses with a code in the range such that all
  codes listed in front of it split into exactly two parts.
\<close>

definition Range_matches :: "runtime \<Rightarrow> Class \<Rightarrow> Class \<Rightarrow> entry \<Rightarrow> bool" where
  "Range_matches rt from to course =
     (case course of
        Course _ k \<Rightarrow>
          (\<exists>pre code post. codes k = pre @ code # post
              \<and> list_all (\<lambda>c. length (split_space c) = 2) pre
              \<and> code_in_range rt from to code)
      | _ \<Rightarrow> False)"



text \<open>
  An entry, a result list and a result of the resolver with the generated identifiers
  blanked: the \<^verbatim>\<open>id\<close> of every ManualFulfillment, at any depth, becomes the empty string.
\<close>

fun strip_ids :: "entry \<Rightarrow> entry" where
  "strip_ids (Course i k) = Course i k"
| "strip_ids (ManualFulfillment i m) = ManualFulfillment i (m\<lparr>id_mf := []\<rparr>)"
| "strip_ids (Nested i xs) = Nested i (map strip_ids xs)"

definition strip_query_result :: "QueryResult \<Rightarrow> QueryResult" where
  "strip_query_result r = r\<lparr>selectedCourses := map strip_ids (selectedCourses r)\<rparr>"

definition strip_result :: "MatchingEvaluationResult \<Rightarrow> MatchingEvaluationResult" where
  "strip_result res =
     \<lparr>results = map strip_query_result (results res),
      allSelectedCourses = map strip_ids (allSelectedCourses res)\<rparr>"

definition strip_run ::
  "(MatchingError + CourseList) \<times> world \<Rightarrow> (MatchingError + CourseList) \<times> world" where
  "strip_run r = (map_sum id (map strip_ids) (fst r), snd r)"

text \<open>The runtime in which every generated UUID is the empty string.\<close>

definition no_uuids :: "runtime \<Rightarrow> runtime" where
  "no_uuids rt = rt\<lparr>randomUUID := (\<lambda>_. [])\<rparr>"

text \<open>
  The identifier of an object created by the engine. In a list built by the engine the
  created objects have identifiers within the bounds of what was allocated meanwhile, and
  no two of them share an identifier.
\<close>

fun fresh_oid :: "entry \<Rightarrow> oid option" where
  "fresh_oid (Course i k) = None"
| "fresh_oid (ManualFulfillment i m) = Some i"
| "fresh_oid (Nested i xs) = Some i"

definition fresh_within :: "nat \<Rightarrow> nat \<Rightarrow> CourseList \<Rightarrow> bool" where
  "fresh_within lo hi xs \<longleftrightarrow>
     (\<forall>x \<in> set xs. \<forall>i. fresh_oid x = Some i \<longrightarrow> lo \<le> i \<and> i < hi)
     \<and> (\<forall>x \<in> set xs. \<forall>y \<in> set xs. fresh_oid x = fresh_oid y \<longrightarrow> fresh_oid x \<noteq> None \<longrightarrow> x = y)"


section \<open>Sample runtime and catalog\<close>

text \<open>
  Concrete values on which the theorems below are instantiated. \<open>sample_lower\<close> is
  \<^verbatim>\<open>toLowerCase\<close> on ASCII text. \<open>sample_Number\<close> is \<^verbatim>\<open>Number\<close> on strings of decimal
  digits (the empty string gives 0); it is applied to other strings only where \<^verbatim>\<open>Number\<close>
  yields NaN as well. The text produced by \<open>JSON_stringify\<close> is a placeholder.
\<close>

definition sample_lower :: "string \<Rightarrow> string" where
  "sample_lower s =
     map (\<lambda>c. case map_of (zip ''ABCDEFGHIJKLMNOPQRSTUVWXYZ'' ''abcdefghijklmnopqrstuvwxyz'') c of
                 None \<Rightarrow> c
               | Some l \<Rightarrow> l) s"

definition sample_Number :: "string \<Rightarrow> js_number" where
  "sample_Number s =
     (if list_all (\<lambda>c. c \<in> set ''0123456789'') s
      then Finite (of_nat (fold (\<lambda>c n. 10 * n + length (takeWhile (\<lambda>d. d \<noteq> c) ''0123456789'')) s 0))
      else NaN)"

definition sample_runtime :: runtime where
  "sample_runtime =
     \<lparr>toLowerCase = sample_lower, Number = sample_Number,
      JSON_stringify = (\<lambda>_. ''{}''), randomUUID = (\<lambda>k. ''uuid-'' @ decimal k)\<rparr>"

definition cs201 :: Course where
  "cs201 = \<lparr>codes = [''CS 201''], tags = [], title = ''Intro'', dist = None\<rparr>"

definition class_cs201 :: Selector where
  "class_cs201 = Class \<lparr>department_id = ''CS'', course_number = 201, lab = False\<rparr>"

definition empty_query :: MQLQuery where
  "empty_query = MQLQuery (Single 1) Select []"


definition failing_class :: Selector where
  "failing_class = Class \<lparr>department_id = ''CS'', course_number = 999, lab = False\<rparr>"

definition cs999_not_found :: MatchingError where
  "cs999_not_found =
     \<lparr>MatchingError.requirement = ''{}'', message = ''CS 999 not found in catalog''\<rparr>"

definition req_high :: MQLRequirement where
  "req_high =
     \<lparr>query = MQLQuery (Single 1) Select [class_cs201], description = ''core'', priority = 10\<rparr>"

definition req_low :: MQLRequirement where
  "req_low =
     \<lparr>query = MQLQuery (Single 1) Select [class_cs201], description = ''elective'',
      priority = 5\<rparr>"

definition req_low2 :: MQLRequirement where
  "req_low2 =
     \<lparr>query = MQLQuery (Single 1) Select [class_cs201], description = ''second elective'',
      priority = 5\<rparr>"

definition req_failing :: MQLRequirement where
  "req_failing =
     \<lparr>query = MQLQuery (Single 1) Select [failing_class], description = ''missing'',
      priority = 7\<rparr>"

definition short_circuit_query :: MQLQuery where
  "short_circuit_query = MQLQuery (Single 1) Select [class_cs201, failing_class, Placement ''AP'']"


definition math_cs :: Course where
  "math_cs = \<lparr>codes = [''MATH 100'', ''CS 201''], tags = [''core''], title = ''Discrete'',
              dist = Some [''QR'']\<rparr>"

definition cs_200 :: Class where
  "cs_200 = \<lparr>department_id = ''CS'', course_number = 200, lab = False\<rparr>"

definition cs_300 :: Class where
  "cs_300 = \<lparr>department_id = ''CS'', course_number = 300, lab = False\<rparr>"

definition odd_code_first :: Course where
  "odd_code_first = \<lparr>codes = [''CS201'', ''CS 201''], tags = [], title = ''Intro'', dist = None\<rparr>"

definition odd_code_last :: Course where
  "odd_code_last = \<lparr>codes = [''MATH 100'', ''CS 201'', ''CS201''], tags = [], title = ''Intro'', dist = None\<rparr>"









definition other_uuids :: "nat \<Rightarrow> UUID" where
  "other_uuids k = ''other-'' @ decimal k"

definition second_runtime :: runtime where
  "second_runtime = sample_runtime\<lparr>randomUUID := other_uuids\<rparr>"

definition placement_document :: MQLQueryFile where
  "placement_document =
     \<lparr>version = ''1.0.0'',
      requirements = [\<lparr>query = MQLQuery (Single 1) Select [Placement ''AP Calc BC''],
                       description = ''calculus'', priority = 1\<rparr>]\<rparr>"


section \<open>Basic facts\<close>

lemma selectorVTable_Query:
  "selectorVTable rt mql (Query q) courseList w = queryQuery rt mql (Query q) courseList w"
  by (cases q) (simp add: queryQuery_def QueryMatcher_match_def matchFlatten_def)

lemma pure_handler_nonempty:
  "queryClass rt mql sel cl = Inr xs \<Longrightarrow> xs \<noteq> []"
  "queryDist rt mql sel cl = Inr xs \<Longrightarrow> xs \<noteq> []"
  "queryDistCode rt mql sel cl = Inr xs \<Longrightarrow> xs \<noteq> []"
  "queryRange rt mql sel cl = Inr xs \<Longrightarrow> xs \<noteq> []"
  "queryRangeDist rt mql sel cl = Inr xs \<Longrightarrow> xs \<noteq> []"
  "queryRangeTag rt mql sel cl = Inr xs \<Longrightarrow> xs \<noteq> []"
  "queryTag rt mql sel cl = Inr xs \<Longrightarrow> xs \<noteq> []"
  "queryTagCode rt mql sel cl = Inr xs \<Longrightarrow> xs \<noteq> []"
  by (auto simp: queryClass_def queryDist_def queryDistCode_def queryRange_def
        queryRangeDist_def queryRangeTag_def queryTag_def queryTagCode_def Let_def
        split: Selector.splits if_splits)

lemma selector_success_nonempty:
  "selectorVTable rt mql sel cl w = (Inr xs, w') \<Longrightarrow> xs \<noteq> []"
proof (cases sel)
  case (Query q)
  then show "selectorVTable rt mql sel cl w = (Inr xs, w') \<Longrightarrow> xs \<noteq> []"
    by (cases q) (auto split: prod.splits sum.splits)
next
  case (Placement d)
  then show "selectorVTable rt mql sel cl w = (Inr xs, w') \<Longrightarrow> xs \<noteq> []"
    by (auto simp: queryPlacement_def Let_def)
qed (auto dest: pure_handler_nonempty)


lemma set_Set_add_all: "set (Set_add_all s xs) = set s \<union> set xs"
  unfolding Set_add_all_def
  by (induction xs arbitrary: s) (auto simp: Set_add_def)



section \<open>The Class selector and the lab flag\<close>

text \<open>
  Claim C10. Evaluation of a Class selector does not depend on its \<^verbatim>\<open>lab\<close> field: two
  Class selectors with the same department and course number and any two values of
  \<^verbatim>\<open>lab\<close> give the same result on every catalog, both in the handler \<^verbatim>\<open>queryClass\<close> and
  through the dispatch table. Two queries made of such selectors have the same verdict
  and the same matched courses in flatten mode (the text of the error names the query,
  hence the flag).
\<close>

theorem queryClass_ignores_lab:
  "queryClass rt mql (Class \<lparr>department_id = d, course_number = n, lab = l1\<rparr>) courseList
     = queryClass rt mql (Class \<lparr>department_id = d, course_number = n, lab = l2\<rparr>) courseList
   \<and> selectorVTable rt mql (Class \<lparr>department_id = d, course_number = n, lab = l1\<rparr>) courseList w
     = selectorVTable rt mql (Class \<lparr>department_id = d, course_number = n, lab = l2\<rparr>) courseList w
   \<and> map_sum (\<lambda>_. ()) id
         (fst (matchFlatten rt courseList
                (MQLQuery qn ty [Class \<lparr>department_id = d, course_number = n, lab = l1\<rparr>]) w))
     = map_sum (\<lambda>_. ()) id
         (fst (matchFlatten rt courseList
                (MQLQuery qn ty [Class \<lparr>department_id = d, course_number = n, lab = l2\<rparr>]) w))"
  by (simp add: queryClass_def matchFlatten_def Let_def)


section \<open>Queries without selectors\<close>

text \<open>
  Claim C9. Flatten-mode evaluation of a query whose selector list is empty succeeds with
  the empty collection, and so does the resolver on a document made of such a
  requirement, although a selector that succeeds never returns an empty list.
\<close>

theorem empty_selector_list_succeeds:
  "matchFlatten rt courseList (MQLQuery qn ty []) w = (Inr [], w)
   \<and> matchCourses rt courseList
        \<lparr>version = v, requirements = [\<lparr>query = MQLQuery qn ty [], description = d, priority = p\<rparr>]\<rparr>
       = Inr \<lparr>results = [\<lparr>QueryResult.requirement =
                            \<lparr>query = MQLQuery qn ty [], description = d, priority = p\<rparr>,
                          selectedCourses = []\<rparr>],
              allSelectedCourses = []\<rparr>
   \<and> (\<forall>mql sel w xs w'. selectorVTable rt mql sel courseList w = (Inr xs, w') \<longrightarrow> xs \<noteq> [])"
  by (auto simp: matchFlatten_def matchCourses_def MQLMatcher_match_def
      sortedRequirements_def Array_sort_def QueryMatcher_match_def Set_add_all_def
      dest: selector_success_nonempty)

theorem empty_selector_list_succeeds_witness:
  "selectorVTable sample_runtime empty_query class_cs201 [Course 0 cs201] initial_world
     = (Inr [Course 0 cs201], initial_world)
   \<and> [Course 0 cs201] \<noteq> []
   \<and> matchFlatten sample_runtime [Course 0 cs201] empty_query initial_world = (Inr [], initial_world)"
  using empty_selector_list_succeeds
          [of sample_runtime "[Course 0 cs201]" "Single 1" Select initial_world]
  by (simp add: empty_query_def class_cs201_def queryClass_def cs201_def decimal.simps)


section \<open>The Query selector\<close>

text \<open>
  Claim C6. A Query selector evaluates its nested query in flatten mode. When that
  succeeds, the result of the selector has exactly one element, the whole nested
  collection as one array; when it fails, the result is the same error. The handler
  \<^verbatim>\<open>queryQuery\<close> is what the dispatch table runs.
\<close>

theorem queryQuery_wraps_nested_result:
  "selectorVTable rt mql (Query q) courseList w
     = (case matchFlatten rt courseList q w of
          (Inl e, w') \<Rightarrow> (Inl e, w')
        | (Inr data, w') \<Rightarrow>
            (Inr [Nested (allocated w') data], w'\<lparr>allocated := Suc (allocated w')\<rparr>))
   \<and> queryQuery rt mql (Query q) courseList w = selectorVTable rt mql (Query q) courseList w"
  by (cases q) (simp add: queryQuery_def QueryMatcher_match_def matchFlatten_def)


section \<open>Flatten mode stops at the first failing selector\<close>

lemma matchFlatten_loop_append:
  "matchFlatten_loop rt cl mql (pre @ rest) fl w =
     (case matchFlatten_loop rt cl mql pre fl w of
        (Inl e, w') \<Rightarrow> (Inl e, w')
      | (Inr acc, w') \<Rightarrow> matchFlatten_loop rt cl mql rest acc w')"
  by (induction pre arbitrary: fl w) (auto split: prod.splits sum.splits)

lemma matchFlatten_loop_fails_iff:
  "matchFlatten_loop rt cl mql sels fl w = (Inl e, w2) \<longleftrightarrow>
     (\<exists>pre s post acc w1. sels = pre @ s # post
        \<and> matchFlatten_loop rt cl mql pre fl w = (Inr acc, w1)
        \<and> selectorVTable rt mql s cl w1 = (Inl e, w2))"
proof (induction sels arbitrary: fl w)
  case Nil
  then show ?case by simp
next
  case (Cons a sels)
  show ?case
  proof (cases "selectorVTable rt mql a cl w")
    case (Pair r w')
    show ?thesis
    proof (cases r)
      case (Inl e')
      show ?thesis
      proof
        assume "matchFlatten_loop rt cl mql (a # sels) fl w = (Inl e, w2)"
        with Pair Inl have "selectorVTable rt mql a cl w = (Inl e, w2)" by simp
        then have "a # sels = [] @ a # sels \<and> matchFlatten_loop rt cl mql [] fl w = (Inr fl, w)
            \<and> selectorVTable rt mql a cl w = (Inl e, w2)" by simp
        then show "\<exists>pre s post acc w1. a # sels = pre @ s # post
          \<and> matchFlatten_loop rt cl mql pre fl w = (Inr acc, w1)
          \<and> selectorVTable rt mql s cl w1 = (Inl e, w2)" by blast
      next
        assume "\<exists>pre s post acc w1. a # sels = pre @ s # post
          \<and> matchFlatten_loop rt cl mql pre fl w = (Inr acc, w1)
          \<and> selectorVTable rt mql s cl w1 = (Inl e, w2)"
        then obtain pre s post acc w1 where h: "a # sels = pre @ s # post"
          "matchFlatten_loop rt cl mql pre fl w = (Inr acc, w1)"
          "selectorVTable rt mql s cl w1 = (Inl e, w2)" by blast
        show "matchFlatten_loop rt cl mql (a # sels) fl w = (Inl e, w2)"
          using h by (simp add: matchFlatten_loop_append)
      qed
    next
      case (Inr data)
      have step: "matchFlatten_loop rt cl mql (a # xs) fl w
                  = matchFlatten_loop rt cl mql xs (Set_add_all fl data) w'" for xs
        using Pair Inr by simp
      show ?thesis
      proof
        assume "matchFlatten_loop rt cl mql (a # sels) fl w = (Inl e, w2)"
        then have "matchFlatten_loop rt cl mql sels (Set_add_all fl data) w' = (Inl e, w2)"
          by (simp only: step)
        then obtain pre s post acc w1 where h: "sels = pre @ s # post"
          "matchFlatten_loop rt cl mql pre (Set_add_all fl data) w' = (Inr acc, w1)"
          "selectorVTable rt mql s cl w1 = (Inl e, w2)"
          using Cons.IH by blast
        have "a # sels = (a # pre) @ s # post" using h(1) by simp
        moreover have "matchFlatten_loop rt cl mql (a # pre) fl w = (Inr acc, w1)"
          using h(2) by (simp only: step)
        ultimately show "\<exists>pre s post acc w1. a # sels = pre @ s # post
          \<and> matchFlatten_loop rt cl mql pre fl w = (Inr acc, w1)
          \<and> selectorVTable rt mql s cl w1 = (Inl e, w2)" using h(3) by blast
      next
        assume "\<exists>pre s post acc w1. a # sels = pre @ s # post
          \<and> matchFlatten_loop rt cl mql pre fl w = (Inr acc, w1)
          \<and> selectorVTable rt mql s cl w1 = (Inl e, w2)"
        then obtain pre s post acc w1 where h: "a # sels = pre @ s # post"
          "matchFlatten_loop rt cl mql pre fl w = (Inr acc, w1)"
          "selectorVTable rt mql s cl w1 = (Inl e, w2)" by blast
        show "matchFlatten_loop rt cl mql (a # sels) fl w = (Inl e, w2)"
          using h by (simp add: matchFlatten_loop_append)
      qed
    qed
  qed
qed


text \<open>
  Claim C7. In flatten mode the selectors are evaluated in list order, and the evaluation
  fails with error \<open>e\<close> exactly when the selector list splits into selectors \<open>pre\<close> that all
  succeed, evaluated in order from the empty set, a selector \<open>s\<close> that fails with \<open>e\<close> in
  the world reached after \<open>pre\<close>, and any remaining selectors \<open>post\<close>. The outcome is that
  error and the world in which \<open>s\<close> failed: the selectors of \<open>post\<close> are not evaluated (they
  neither change the outcome nor create an object nor draw a UUID), and the collection
  built from \<open>pre\<close> is not returned.
\<close>

theorem flatten_short_circuit:
  "matchFlatten rt cl mql w = (Inl e, w2) \<longleftrightarrow>
     (\<exists>pre s post acc w1. selector mql = pre @ s # post
        \<and> matchFlatten_loop rt cl mql pre [] w = (Inr acc, w1)
        \<and> selectorVTable rt mql s cl w1 = (Inl e, w2))"
  unfolding matchFlatten_def by (rule matchFlatten_loop_fails_iff)

theorem flatten_short_circuit_witness:
  "matchFlatten sample_runtime [Course 0 cs201] short_circuit_query initial_world
     = (Inl cs999_not_found, initial_world)
   \<and> selector short_circuit_query = [class_cs201] @ failing_class # [Placement ''AP'']
   \<and> matchFlatten_loop sample_runtime [Course 0 cs201] short_circuit_query [class_cs201] []
         initial_world = (Inr [Course 0 cs201], initial_world)
   \<and> selectorVTable sample_runtime short_circuit_query failing_class [Course 0 cs201]
         initial_world = (Inl cs999_not_found, initial_world)"
  using flatten_short_circuit
          [of sample_runtime "[Course 0 cs201]" short_circuit_query initial_world
              cs999_not_found initial_world]
  by (simp add: short_circuit_query_def class_cs201_def failing_class_def cs999_not_found_def
      matchFlatten_def queryClass_def cs201_def decimal.simps Set_add_all_def Set_add_def
      sample_runtime_def)


section \<open>Errors do not depend on the world\<close>

lemma err_of_simps [simp]:
  "err_of (Inl e, w) = Some e" "err_of (Inr x, w) = None"
  by (simp_all add: err_of_def)

lemma err_of_world_independent:
  "err_of (matchFlatten_loop rt cl mql sels fl w) = err_of (matchFlatten_loop rt cl mql sels fl' w')"
  "err_of (selectorVTable rt mql sel cl w) = err_of (selectorVTable rt mql sel cl w')"
proof (induction rt cl mql sels fl w and rt mql sel cl w arbitrary: fl' w' and w'
       rule: matchFlatten_loop_selectorVTable.induct)
  case (2 rt courseList mql sel rest flattened w)
  obtain r1 w1 where a: "selectorVTable rt mql sel courseList w = (r1, w1)" by (cases "selectorVTable rt mql sel courseList w")
  obtain r2 w2 where b: "selectorVTable rt mql sel courseList w' = (r2, w2)" by (cases "selectorVTable rt mql sel courseList w'")
  have e: "err_of (r1, w1) = err_of (r2, w2)" using "2.IH"(1)[of w'] a b by simp
  show ?case
  proof (cases r1)
    case (Inl x)
    with e show ?thesis using a b by (cases r2) auto
  next
    case (Inr data)
    with e obtain data' where r2: "r2 = Inr data'" by (cases r2) auto
    show ?thesis using a b Inr r2 "2.IH"(2)[OF a[symmetric, unfolded Inr] refl] by simp
  qed
next
  case (3 rt mql qn ty sels courseList w)
  obtain r1 w1 where a: "matchFlatten_loop rt courseList (MQLQuery qn ty sels) sels [] w = (r1, w1)"
    by (cases "matchFlatten_loop rt courseList (MQLQuery qn ty sels) sels [] w")
  obtain r2 w2 where b: "matchFlatten_loop rt courseList (MQLQuery qn ty sels) sels [] w' = (r2, w2)"
    by (cases "matchFlatten_loop rt courseList (MQLQuery qn ty sels) sels [] w'")
  have e: "err_of (r1, w1) = err_of (r2, w2)" using "3.IH"[of "[]" w'] a b by simp
  then show ?case using a b by (cases r1; cases r2) auto
qed (simp_all add: queryPlacement_def err_of_def)


lemma requirement_error_world_independent:
  "requirement_error rt cl w req = requirement_error rt cl w' req"
  unfolding requirement_error_def QueryMatcher_match_def matchFlatten_def
  by (simp add: err_of_world_independent(1)[of rt cl _ _ "[]" w "[]" w'])

lemma match_loop_errors:
  "fst (fst (match_loop rt cl reqs (errs, used, rs) w))
     = errs @ List.map_filter (requirement_error rt cl w0) reqs"
proof (induction reqs arbitrary: errs used rs w)
  case Nil
  then show ?case by (simp add: List.map_filter_simps)
next
  case (Cons req reqs)
  obtain r w1 where a: "QueryMatcher_match rt cl (query req) False w = (r, w1)"
    by (cases "QueryMatcher_match rt cl (query req) False w")
  have e: "requirement_error rt cl w0 req = err_of (r, w1)"
    using a requirement_error_world_independent[of rt cl w0 req w]
    by (simp add: requirement_error_def)
  show ?case
  proof (cases r)
    case (Inl x)
    then show ?thesis using a e Cons.IH by (simp add: List.map_filter_simps)
  next
    case (Inr data)
    then show ?thesis using a e Cons.IH by (simp add: List.map_filter_simps)
  qed
qed

lemma match_loop_results:
  "match_loop rt cl reqs (errs, used, rs) w = ((errs', used', rs'), w') \<Longrightarrow> errs' = [] \<Longrightarrow>
     map QueryResult.requirement rs' = map QueryResult.requirement rs @ reqs"
proof (induction reqs arbitrary: errs used rs w)
  case Nil
  then show ?case by simp
next
  case (Cons req reqs)
  obtain r w1 where a: "QueryMatcher_match rt cl (query req) False w = (r, w1)"
    by (cases "QueryMatcher_match rt cl (query req) False w")
  show ?case
  proof (cases r)
    case (Inl x)
    have "fst (fst (match_loop rt cl reqs (errs @ [x], used, rs) w1)) = errs'"
      using Cons.prems(1) a Inl by simp
    then have "errs' \<noteq> []" by (auto simp: match_loop_errors[of rt cl reqs _ used rs w1 w1])
    with Cons.prems(2) show ?thesis by simp
  next
    case (Inr data)
    then show ?thesis using a Cons.prems Cons.IH[of errs "Set_add_all used data" "rs @ [\<lparr>QueryResult.requirement = req, selectedCourses = data\<rparr>]" w1]
      by simp
  qed
qed


section \<open>Priority order of the requirements\<close>

lemma set_sort_insert: "set (sort_insert cmp x ys) = insert x (set ys)"
  by (induction ys) auto

lemma set_Array_sort: "set (Array_sort cmp xs) = set xs"
  by (induction xs) (simp_all add: Array_sort_def set_sort_insert)

lemma by_priority_le: "by_priority x y \<le> 0 \<longleftrightarrow> priority y \<le> priority x"
  by (simp add: by_priority_def word_le_def)

lemma set_map_filter:
  "set (List.map_filter f xs) = {y. \<exists>x \<in> set xs. f x = Some y}"
  by (induction xs) (auto simp: List.map_filter_simps split: option.splits)

lemma sorted_sort_insert:
  "sorted_wrt (\<lambda>a b. priority b \<le> priority a) ys \<Longrightarrow>
   sorted_wrt (\<lambda>a b. priority b \<le> priority a) (sort_insert by_priority x ys)"
proof (induction ys)
  case Nil
  then show ?case by simp
next
  case (Cons y ys)
  show ?case
  proof (cases "by_priority x y \<le> 0")
    case True
    then have "priority y \<le> priority x" by (simp add: by_priority_le)
    with Cons.prems True show ?thesis by auto
  next
    case False
    then have "priority x \<le> priority y" by (simp add: by_priority_le)
    with Cons False show ?thesis by (auto simp: set_sort_insert)
  qed
qed

lemma sorted_Array_sort:
  "sorted_wrt (\<lambda>a b. priority b \<le> priority a) (Array_sort by_priority xs)"
  by (induction xs) (simp_all add: Array_sort_def sorted_sort_insert)

lemma filter_sort_insert:
  "filter (\<lambda>r. priority r = p) (sort_insert by_priority x ys)
     = (if priority x = p then x # filter (\<lambda>r. priority r = p) ys
        else filter (\<lambda>r. priority r = p) ys)"
  by (induction ys) (auto simp: by_priority_le)

lemma filter_Array_sort:
  "filter (\<lambda>r. priority r = p) (Array_sort by_priority xs) = filter (\<lambda>r. priority r = p) xs"
  by (induction xs) (simp_all add: Array_sort_def filter_sort_insert)



lemma MQLMatcher_match_success:
  assumes "MQLMatcher_match rt cl mql = Inr res"
  shows "map QueryResult.requirement (results res) = sortedRequirements mql"
proof -
  obtain acc w' where a0:
    "match_loop rt cl (sortedRequirements mql) ([], [], []) initial_world = (acc, w')"
    by (cases "match_loop rt cl (sortedRequirements mql) ([], [], []) initial_world")
  obtain errs used rs where a1: "acc = (errs, used, rs)"
    by (cases acc)
  have a:
    "match_loop rt cl (sortedRequirements mql) ([], [], []) initial_world = ((errs, used, rs), w')"
    using a0 a1 by simp
  from assms a have "errs = []" "res = \<lparr>results = rs, allSelectedCourses = used\<rparr>"
    by (auto simp: MQLMatcher_match_def split: if_splits)
  with match_loop_results[OF a] show ?thesis by simp
qed


lemma sample_resolution:
  "MQLMatcher_match sample_runtime [Course 0 cs201]
      \<lparr>version = ''1.0.0'', requirements = [req_low, req_high, req_low2]\<rparr>
   = Inr \<lparr>results =
            [\<lparr>QueryResult.requirement = req_high, selectedCourses = [Course 0 cs201]\<rparr>,
             \<lparr>QueryResult.requirement = req_low, selectedCourses = [Course 0 cs201]\<rparr>,
             \<lparr>QueryResult.requirement = req_low2, selectedCourses = [Course 0 cs201]\<rparr>],
          allSelectedCourses = [Course 0 cs201]\<rparr>"
  by (simp add: MQLMatcher_match_def sortedRequirements_def Array_sort_def by_priority_def
      req_low_def req_low2_def req_high_def QueryMatcher_match_def matchFlatten_def
      class_cs201_def queryClass_def cs201_def decimal.simps Set_add_all_def Set_add_def)

text \<open>
  Claim C8. When the resolver succeeds, the requirements of its results list are in
  descending order of priority, and for every priority the requirements of that priority
  appear in the results in the order in which the document lists them (the sort is
  stable). When it fails there is no results list.
\<close>

theorem results_follow_stable_priority_order:
  "MQLMatcher_match rt cl mql = Inr res \<Longrightarrow>
     sorted_wrt (\<lambda>a b. priority b \<le> priority a) (map QueryResult.requirement (results res))
     \<and> (\<forall>p. filter (\<lambda>r. priority r = p) (map QueryResult.requirement (results res))
              = filter (\<lambda>r. priority r = p) (requirements mql))"
  by (simp add: MQLMatcher_match_success sortedRequirements_def sorted_Array_sort filter_Array_sort)



theorem results_follow_stable_priority_order_witness:
  "map QueryResult.requirement
     (results (projr (MQLMatcher_match sample_runtime [Course 0 cs201]
        \<lparr>version = ''1.0.0'', requirements = [req_low, req_high, req_low2]\<rparr>)))
     = [req_high, req_low, req_low2]
   \<and> filter (\<lambda>r. priority r = 5) [req_high, req_low, req_low2]
       = filter (\<lambda>r. priority r = 5) [req_low, req_high, req_low2]
   \<and> sorted_wrt (\<lambda>a b. priority b \<le> priority a) [req_high, req_low, req_low2]"
  using results_follow_stable_priority_order [OF sample_resolution]
  by (simp add: sample_resolution)


section \<open>All-or-nothing resolution\<close>

text \<open>
  Claim C1. For every catalog and document, the resolver succeeds if and only if the
  query of every requirement evaluates successfully. When it fails, its result is the
  list of the errors of all failing requirements, in the order of processing (the
  requirements after a failing one are still evaluated), and nothing else: the results
  computed for the other requirements are not part of it. The error of a requirement
  does not depend on the world \<open>w\<close> in which its query is evaluated.
\<close>

theorem resolution_is_all_or_nothing:
  "((\<exists>res. MQLMatcher_match rt cl mql = Inr res)
       \<longleftrightarrow> (\<forall>req \<in> set (requirements mql). requirement_error rt cl w req = None))
   \<and> (\<forall>errs. MQLMatcher_match rt cl mql = Inl errs \<longrightarrow>
         errs = List.map_filter (requirement_error rt cl w) (sortedRequirements mql)
         \<and> set errs = {e. \<exists>req \<in> set (requirements mql). requirement_error rt cl w req = Some e})"
proof -
  obtain acc w' where a0:
    "match_loop rt cl (sortedRequirements mql) ([], [], []) initial_world = (acc, w')"
    by (cases "match_loop rt cl (sortedRequirements mql) ([], [], []) initial_world")
  obtain errs used rs where a1: "acc = (errs, used, rs)"
    by (cases acc)
  have a:
    "match_loop rt cl (sortedRequirements mql) ([], [], []) initial_world = ((errs, used, rs), w')"
    using a0 a1 by simp
  have e: "errs = List.map_filter (requirement_error rt cl w) (sortedRequirements mql)"
    using match_loop_errors[of rt cl "sortedRequirements mql" "[]" "[]" "[]" initial_world w] a
    by simp
  have s: "set (sortedRequirements mql) = set (requirements mql)"
    by (simp add: sortedRequirements_def set_Array_sort)
  have se: "set errs = {e. \<exists>req \<in> set (requirements mql). requirement_error rt cl w req = Some e}"
    unfolding e using s by (simp add: set_map_filter)
  have m: "MQLMatcher_match rt cl mql
            = (if errs = [] then Inr \<lparr>results = rs, allSelectedCourses = used\<rparr> else Inl errs)"
    using a by (simp add: MQLMatcher_match_def)
  have iff: "errs = [] \<longleftrightarrow> (\<forall>req \<in> set (requirements mql). requirement_error rt cl w req = None)"
  proof
    assume empty: "errs = []"
    show "\<forall>req \<in> set (requirements mql). requirement_error rt cl w req = None"
    proof
      fix req assume r: "req \<in> set (requirements mql)"
      show "requirement_error rt cl w req = None"
      proof (cases "requirement_error rt cl w req")
        case None
        then show ?thesis .
      next
        case (Some x)
        with r have "x \<in> {e. \<exists>req \<in> set (requirements mql). requirement_error rt cl w req = Some e}"
          by blast
        with se empty show ?thesis by simp
      qed
    qed
  next
    assume "\<forall>req \<in> set (requirements mql). requirement_error rt cl w req = None"
    with se have "set errs = {}" by simp
    then show "errs = []" by simp
  qed
  have p1: "(\<exists>res. MQLMatcher_match rt cl mql = Inr res) \<longleftrightarrow> errs = []"
    by (simp add: m)
  have p2: "MQLMatcher_match rt cl mql = Inl errs' \<Longrightarrow> errs' = errs" for errs'
    by (simp add: m split: if_splits)
  show ?thesis
  proof (intro conjI allI impI)
    show "(\<exists>res. MQLMatcher_match rt cl mql = Inr res)
       \<longleftrightarrow> (\<forall>req \<in> set (requirements mql). requirement_error rt cl w req = None)"
      using p1 iff by simp
  next
    fix errs' assume "MQLMatcher_match rt cl mql = Inl errs'"
    then have "errs' = errs" by (rule p2)
    then show "errs' = List.map_filter (requirement_error rt cl w) (sortedRequirements mql)"
      using e by simp
  next
    fix errs' assume "MQLMatcher_match rt cl mql = Inl errs'"
    then have "errs' = errs" by (rule p2)
    then show "set errs' = {e. \<exists>req \<in> set (requirements mql). requirement_error rt cl w req = Some e}"
      using se by simp
  qed
qed


theorem resolution_is_all_or_nothing_witness:
  "MQLMatcher_match sample_runtime [Course 0 cs201]
      \<lparr>version = ''1.0.0'', requirements = [req_low, req_failing, req_high]\<rparr>
     = Inl [cs999_not_found]
   \<and> List.map_filter (requirement_error sample_runtime [Course 0 cs201] initial_world)
        (sortedRequirements \<lparr>version = ''1.0.0'', requirements = [req_low, req_failing, req_high]\<rparr>)
     = [cs999_not_found]
   \<and> requirement_error sample_runtime [Course 0 cs201] initial_world req_low = None"
  using resolution_is_all_or_nothing
          [of sample_runtime "[Course 0 cs201]"
              "\<lparr>version = ''1.0.0'', requirements = [req_low, req_failing, req_high]\<rparr>"
              initial_world]
  by (simp add: MQLMatcher_match_def sortedRequirements_def Array_sort_def by_priority_def
      req_low_def req_failing_def req_high_def QueryMatcher_match_def matchFlatten_def
      class_cs201_def failing_class_def queryClass_def cs201_def decimal.simps Set_add_all_def
      Set_add_def cs999_not_found_def sample_runtime_def requirement_error_def
      List.map_filter_simps)


section \<open>The DistCode and TagCode selectors\<close>

lemma split_space_head:
  "\<exists>ws. split_space code = code_department code # ws"
  by (induction code) (auto simp: code_department_def)

lemma some_code_in_department_iff:
  "some_code_in_department dep k \<longleftrightarrow> dep \<in> set (map code_department (codes k))"
proof -
  have "(case split_space code of [] \<Rightarrow> False | d # _ \<Rightarrow> d = dep) \<longleftrightarrow> code_department code = dep"
    for code
    using split_space_head[of code] by auto
  then show ?thesis
    by (auto simp: some_code_in_department_def list_ex_iff)
qed

lemma DistCode_filter:
  "filter (\<lambda>course. case course of
                      Course _ k \<Rightarrow>
                        (if dist k = None then False
                         else some_code_in_department dep k \<and> has_dist rt (toLowerCase rt target) k)
                    | _ \<Rightarrow> False) cl
   = filter (DistCode_matches rt target dep) cl"
  by (rule filter_cong)
     (auto simp: DistCode_matches_def some_code_in_department_iff has_dist_def
           split: entry.splits option.splits)

lemma TagCode_filter:
  "filter (\<lambda>course. case course of
                      Course _ k \<Rightarrow> some_code_in_department dep k \<and> tag \<in> set (tags k)
                    | _ \<Rightarrow> False) cl
   = filter (TagCode_matches tag dep) cl"
  by (rule filter_cong)
     (auto simp: TagCode_matches_def some_code_in_department_iff split: entry.splits)

lemma queryDistCode_eq:
  "queryDistCode rt mql (DistCode target dep) cl =
     (if filter (DistCode_matches rt target dep) cl = []
      then Inl \<lparr>MatchingError.requirement = JSON_stringify rt mql,
                message = ''DIST_DEPT('' @ target @ '', '' @ dep @ '') not found in catalog''\<rparr>
      else Inr (filter (DistCode_matches rt target dep) cl))"
  by (simp add: queryDistCode_def Let_def DistCode_filter)

lemma queryTagCode_eq:
  "queryTagCode rt mql (TagCode tag dep) cl =
     (if filter (TagCode_matches tag dep) cl = []
      then Inl \<lparr>MatchingError.requirement = JSON_stringify rt mql,
                message = ''TAG_DEPT('' @ tag @ '', '' @ dep @ '') not found in catalog''\<rparr>
      else Inr (filter (TagCode_matches tag dep) cl))"
  by (simp add: queryTagCode_def Let_def TagCode_filter)

text \<open>
  Claim C2, as amended. For every catalog, a DistCode selector returns exactly the courses
  of which some code (not only the first one) has the given department and whose
  lower-cased \<^verbatim>\<open>dist\<close> list contains the lower-cased target; a TagCode selector returns
  exactly the courses of which some code has the given department and whose \<^verbatim>\<open>tags\<close> list
  contains the tag. In each case the result is an error if and only if no course of the
  catalog satisfies the condition.
\<close>

theorem DistCode_TagCode_match_some_code:
  "(\<forall>m. queryDistCode rt mql (DistCode target dep) cl = Inr m
          \<longleftrightarrow> m = filter (DistCode_matches rt target dep) cl \<and> m \<noteq> [])
   \<and> (isl (queryDistCode rt mql (DistCode target dep) cl)
          \<longleftrightarrow> \<not> (\<exists>c \<in> set cl. DistCode_matches rt target dep c))
   \<and> (\<forall>m. queryTagCode rt mql (TagCode tag dep) cl = Inr m
          \<longleftrightarrow> m = filter (TagCode_matches tag dep) cl \<and> m \<noteq> [])
   \<and> (isl (queryTagCode rt mql (TagCode tag dep) cl)
          \<longleftrightarrow> \<not> (\<exists>c \<in> set cl. TagCode_matches tag dep c))"
  by (auto simp: queryDistCode_eq queryTagCode_eq filter_empty_conv)

theorem DistCode_TagCode_match_some_code_witness:
  "queryDistCode sample_runtime empty_query (DistCode ''qr'' ''CS'') [Course 0 cs201, Course 1 math_cs]
     = Inr [Course 1 math_cs]
   \<and> filter (DistCode_matches sample_runtime ''qr'' ''CS'') [Course 0 cs201, Course 1 math_cs]
     = [Course 1 math_cs]
   \<and> queryTagCode sample_runtime empty_query (TagCode ''core'' ''MATH'') [Course 0 cs201, Course 1 math_cs]
     = Inr [Course 1 math_cs]
   \<and> isl (queryTagCode sample_runtime empty_query (TagCode ''core'' ''EE'') [Course 0 cs201, Course 1 math_cs])"
  using DistCode_TagCode_match_some_code
          [of sample_runtime empty_query "''qr''" "''CS''" "[Course 0 cs201, Course 1 math_cs]" "''core''"]
        DistCode_TagCode_match_some_code
          [of sample_runtime empty_query "''qr''" "''MATH''" "[Course 0 cs201, Course 1 math_cs]" "''core''"]
        DistCode_TagCode_match_some_code
          [of sample_runtime empty_query "''qr''" "''EE''" "[Course 0 cs201, Course 1 math_cs]" "''core''"]
  by (simp add: DistCode_matches_def TagCode_matches_def code_department_def cs201_def math_cs_def
      sample_runtime_def sample_lower_def)

text \<open>
  Claim C2 as first stated asks for the department of the first code. A course whose
  second code is in department CS, while its first code is in MATH, is selected by both
  selectors for the code CS.
\<close>

theorem DistCode_first_code_counterexample:
  "queryDistCode sample_runtime empty_query (DistCode ''QR'' ''CS'') [Course 1 math_cs]
     = Inr [Course 1 math_cs]
   \<and> \<not> DistCode_matches_first_code sample_runtime ''QR'' ''CS'' (Course 1 math_cs)
   \<and> queryTagCode sample_runtime empty_query (TagCode ''core'' ''CS'') [Course 1 math_cs]
     = Inr [Course 1 math_cs]
   \<and> \<not> TagCode_matches_first_code ''core'' ''CS'' (Course 1 math_cs)"
  by (simp add: queryDistCode_def queryTagCode_def some_code_in_department_def has_dist_def
      math_cs_def sample_runtime_def sample_lower_def DistCode_matches_first_code_def
      TagCode_matches_first_code_def first_code_department_def code_department_def)


section \<open>The Range selector\<close>

lemma range_scan_iff:
  "range_scan rt from to (map split_space cs) \<longleftrightarrow>
     (\<exists>pre code post. cs = pre @ code # post
        \<and> list_all (\<lambda>c. length (split_space c) = 2) pre
        \<and> code_in_range rt from to code)"
proof (induction cs)
  case Nil
  then show ?case by simp
next
  case (Cons c cs)
  let ?R = "\<lambda>xs. \<exists>pre code post. xs = pre @ code # post
        \<and> list_all (\<lambda>c. length (split_space c) = 2) pre
        \<and> code_in_range rt from to code"
  have here: "code_in_range rt from to c \<Longrightarrow> ?R (c # cs)"
  proof -
    assume "code_in_range rt from to c"
    then have "c # cs = [] @ c # cs \<and> list_all (\<lambda>c. length (split_space c) = 2) []
       \<and> code_in_range rt from to c" by simp
    then show "?R (c # cs)" by blast
  qed
  have later: "length (split_space c) = 2 \<Longrightarrow> ?R cs \<Longrightarrow> ?R (c # cs)"
  proof -
    assume l: "length (split_space c) = 2" and "?R cs"
    then obtain pre code post where h: "cs = pre @ code # post"
        "list_all (\<lambda>c. length (split_space c) = 2) pre" "code_in_range rt from to code" by blast
    then have "c # cs = (c # pre) @ code # post \<and> list_all (\<lambda>c. length (split_space c) = 2) (c # pre)
       \<and> code_in_range rt from to code" using l by simp
    then show "?R (c # cs)" by blast
  qed
  have inv: "?R (c # cs) \<Longrightarrow> code_in_range rt from to c \<or> (length (split_space c) = 2 \<and> ?R cs)"
  proof -
    assume "?R (c # cs)"
    then obtain pre code post where h: "c # cs = pre @ code # post"
        "list_all (\<lambda>c. length (split_space c) = 2) pre" "code_in_range rt from to code" by blast
    show ?thesis
    proof (cases pre)
      case Nil
      with h show ?thesis by simp
    next
      case (Cons p pre')
      with h have "c = p" "cs = pre' @ code # post" "length (split_space c) = 2"
        "list_all (\<lambda>c. length (split_space c) = 2) pre'" by simp_all
      with h(3) show ?thesis by blast
    qed
  qed
  have shape: "code_in_range rt from to c \<Longrightarrow> length (split_space c) = 2"
    by (auto simp: code_in_range_def split: list.splits)
  show ?case
  proof (cases "length (split_space c) = 2")
    case False
    then have "\<not> range_scan rt from to (map split_space (c # cs))"
      by (auto split: list.splits)
    moreover have "\<not> ?R (c # cs)" using False inv shape by blast
    ultimately show ?thesis by blast
  next
    case True
    then obtain dep numStr where sp: "split_space c = [dep, numStr]"
      by (cases "split_space c"; cases "tl (split_space c)"; cases "tl (tl (split_space c))") auto
    show ?thesis
    proof (cases "code_in_range rt from to c")
      case True
      then have "range_scan rt from to (map split_space (c # cs))"
        using sp by (simp add: code_in_range_def Let_def)
      with here[OF True] show ?thesis by blast
    next
      case False
      then have "range_scan rt from to (map split_space (c # cs))
                   = range_scan rt from to (map split_space cs)"
        using sp by (auto simp: code_in_range_def Let_def)
      also have "\<dots> \<longleftrightarrow> ?R cs" by (rule Cons.IH)
      also have "\<dots> \<longleftrightarrow> ?R (c # cs)" using False True inv later by blast
      finally show ?thesis .
    qed
  qed
qed

lemma concat_map_filter:
  "concat (map (\<lambda>x. if P x then [x] else []) xs) = filter P xs"
  by (induction xs) auto

lemma Range_filter:
  "concat (map (\<lambda>course. case course of
                           Course _ k \<Rightarrow>
                             (if range_scan rt from to (map split_space (codes k))
                              then [course] else [])
                         | _ \<Rightarrow> []) cl)
   = filter (Range_matches rt from to) cl"
proof -
  have "(\<lambda>course. case course of
                           Course _ k \<Rightarrow>
                             (if range_scan rt from to (map split_space (codes k))
                              then [course] else [])
                         | _ \<Rightarrow> [])
        = (\<lambda>course. if Range_matches rt from to course then [course] else [])"
    by (rule ext) (auto simp: Range_matches_def range_scan_iff split: entry.splits)
  then show ?thesis by (simp add: concat_map_filter)
qed

lemma queryRange_eq:
  "department_id from = department_id to \<Longrightarrow>
   queryRange rt mql (Range_sel from to) cl =
     (if filter (Range_matches rt from to) cl = []
      then Inl \<lparr>MatchingError.requirement = JSON_stringify rt mql,
                message = ''RANGE('' @ department_id from
                            @ decimal (unat (course_number from)) @ '', ''
                            @ department_id to
                            @ decimal (unat (course_number to))
                            @ '') not found in catalog''\<rparr>
      else Inr (filter (Range_matches rt from to) cl))"
  by (simp add: queryRange_def Let_def Range_filter)

text \<open>
  Claim C3, as amended. For a Range selector whose two ends have the same department, a
  course is selected if and only if one of its codes lies in the range and every code
  listed in front of that code splits into exactly two parts: the scan of the codes of a
  course ends without a match at the first code of another shape. The result is an error
  if and only if no course is selected.
\<close>

theorem Range_matches_up_to_first_odd_code:
  "department_id from = department_id to \<Longrightarrow>
     (\<forall>m. queryRange rt mql (Range_sel from to) cl = Inr m
          \<longleftrightarrow> m = filter (Range_matches rt from to) cl \<and> m \<noteq> [])
     \<and> (isl (queryRange rt mql (Range_sel from to) cl)
          \<longleftrightarrow> \<not> (\<exists>c \<in> set cl. Range_matches rt from to c))"
  by (auto simp: queryRange_eq filter_empty_conv)

lemma sample_range:
  "queryRange sample_runtime empty_query (Range_sel cs_200 cs_300)
      [Course 0 odd_code_first, Course 1 odd_code_last] = Inr [Course 1 odd_code_last]"
  by (simp add: queryRange_def cs_200_def cs_300_def odd_code_first_def odd_code_last_def
      sample_runtime_def sample_Number_def number_of_U16_def)

theorem Range_matches_up_to_first_odd_code_witness:
  "department_id cs_200 = department_id cs_300
   \<and> queryRange sample_runtime empty_query (Range_sel cs_200 cs_300)
        [Course 0 odd_code_first, Course 1 odd_code_last] = Inr [Course 1 odd_code_last]
   \<and> filter (Range_matches sample_runtime cs_200 cs_300)
        [Course 0 odd_code_first, Course 1 odd_code_last] = [Course 1 odd_code_last]"
proof -
  have d: "department_id cs_200 = department_id cs_300"
    by (simp add: cs_200_def cs_300_def)
  show ?thesis
    using Range_matches_up_to_first_odd_code
            [OF d, of sample_runtime empty_query "[Course 0 odd_code_first, Course 1 odd_code_last]"]
          sample_range d
    by simp
qed

text \<open>
  Claim C3 as first stated lets a course match through a code that follows a code of
  another shape. The course with the codes \<^verbatim>\<open>CS201\<close> and \<^verbatim>\<open>CS 201\<close> has a code in the range
  CS 200 to CS 300, and the selector finds nothing in the catalog made of this course.
\<close>

theorem Range_odd_code_counterexample:
  "Range_matches_any_code sample_runtime cs_200 cs_300 (Course 0 odd_code_first)
   \<and> department_id cs_200 = department_id cs_300
   \<and> queryRange sample_runtime empty_query (Range_sel cs_200 cs_300) [Course 0 odd_code_first]
       = Inl \<lparr>MatchingError.requirement = ''{}'',
              message = ''RANGE(CS200, CS300) not found in catalog''\<rparr>"
  by (simp add: Range_matches_any_code_def code_in_range_def queryRange_def cs_200_def cs_300_def
      odd_code_first_def sample_runtime_def sample_Number_def number_of_U16_def decimal.simps)


section \<open>Determinism up to the generated identifiers\<close>

lemma strip_run_simps [simp]:
  "strip_run (Inl e, w) = (Inl e, w)"
  "strip_run (Inr xs, w) = (Inr (map strip_ids xs), w)"
  by (simp_all add: strip_run_def)

lemma fresh_oid_strip [simp]: "fresh_oid (strip_ids x) = fresh_oid x"
  by (cases x) simp_all

lemma strip_ids_course: "fresh_oid x = None \<Longrightarrow> strip_ids x = x"
  by (cases x) simp_all

lemma map_strip_courses: "\<forall>x \<in> set xs. fresh_oid x = None \<Longrightarrow> map strip_ids xs = xs"
  by (induction xs) (simp_all add: strip_ids_course)

lemma fresh_within_Nil [simp]: "fresh_within lo hi []"
  by (simp add: fresh_within_def)

lemma fresh_within_courses: "\<forall>x \<in> set xs. fresh_oid x = None \<Longrightarrow> fresh_within lo hi xs"
  by (simp add: fresh_within_def)

lemma fresh_within_single: "fresh_oid x = Some i \<Longrightarrow> lo \<le> i \<Longrightarrow> i < hi \<Longrightarrow> fresh_within lo hi [x]"
  by (simp add: fresh_within_def)

lemma fresh_within_union:
  assumes s: "fresh_within lo mid s" and xs: "fresh_within mid hi xs"
    and "lo \<le> mid" "mid \<le> hi"
  shows "fresh_within lo hi (Set_add_all s xs)"
proof -
  have bs: "lo \<le> i \<and> i < mid" if "x \<in> set s" "fresh_oid x = Some i" for x i
    using s that by (simp add: fresh_within_def)
  have bx: "mid \<le> i \<and> i < hi" if "x \<in> set xs" "fresh_oid x = Some i" for x i
    using xs that by (simp add: fresh_within_def)
  have us: "x = y" if "x \<in> set s" "y \<in> set s" "fresh_oid x = fresh_oid y" "fresh_oid x \<noteq> None"
    for x y using s that by (simp add: fresh_within_def)
  have ux: "x = y" if "x \<in> set xs" "y \<in> set xs" "fresh_oid x = fresh_oid y" "fresh_oid x \<noteq> None"
    for x y using xs that by (simp add: fresh_within_def)
  have b: "lo \<le> i \<and> i < hi" if "x \<in> set s \<union> set xs" "fresh_oid x = Some i" for x i
  proof (cases "x \<in> set s")
    case True
    from bs[OF True that(2)] assms(4) show ?thesis by simp
  next
    case False
    with that(1) have "x \<in> set xs" by simp
    from bx[OF this that(2)] assms(3) show ?thesis by simp
  qed
  have u: "x = y" if hx: "x \<in> set s \<union> set xs" and hy: "y \<in> set s \<union> set xs"
      and he: "fresh_oid x = fresh_oid y" and hn: "fresh_oid x \<noteq> None" for x y
  proof -
    obtain i where i1: "fresh_oid x = Some i"
      using hn by (cases "fresh_oid x") simp_all
    have i: "fresh_oid x = Some i" "fresh_oid y = Some i"
      using i1 he by simp_all
    show ?thesis
    proof (cases "x \<in> set s")
      case xs: True
      show ?thesis
      proof (cases "y \<in> set s")
        case True
        from us[OF xs True he hn] show ?thesis .
      next
        case False
        with hy have "y \<in> set xs" by simp
        from bx[OF this i(2)] bs[OF xs i(1)] show ?thesis by simp
      qed
    next
      case False
      with hx have xx: "x \<in> set xs" by simp
      show ?thesis
      proof (cases "y \<in> set s")
        case True
        from bs[OF True i(2)] bx[OF xx i(1)] show ?thesis by simp
      next
        case False
        with hy have "y \<in> set xs" by simp
        from ux[OF xx this he hn] show ?thesis .
      qed
    qed
  qed
  show ?thesis
    unfolding fresh_within_def set_Set_add_all
    using b u by blast
qed

lemma strip_inj:
  assumes "fresh_within lo hi xs" "x \<in> set xs" "y \<in> set xs" "strip_ids x = strip_ids y"
  shows "x = y"
proof (cases "fresh_oid x")
  case None
  moreover have "fresh_oid y = None"
    using None fresh_oid_strip[of x] fresh_oid_strip[of y] assms(4) by simp
  ultimately show ?thesis using assms(4) by (simp add: strip_ids_course)
next
  case (Some i)
  moreover have "fresh_oid y = Some i"
    using Some fresh_oid_strip[of x] fresh_oid_strip[of y] assms(4) by simp
  ultimately show ?thesis using assms(1-3) by (simp add: fresh_within_def)
qed

lemma strip_Set_add:
  assumes "fresh_within lo hi (s @ [x])"
  shows "map strip_ids (Set_add s x) = Set_add (map strip_ids s) (strip_ids x)"
proof -
  have "x \<in> set s \<longleftrightarrow> strip_ids x \<in> strip_ids ` set s"
  proof
    assume "strip_ids x \<in> strip_ids ` set s"
    then obtain y where y: "y \<in> set s" "strip_ids x = strip_ids y" by blast
    then have "x = y" using strip_inj[OF assms, of x y] by simp
    with y show "x \<in> set s" by simp
  qed blast
  then show ?thesis by (simp add: Set_add_def)
qed

lemma fresh_within_subset:
  "fresh_within lo hi ys \<Longrightarrow> set xs \<subseteq> set ys \<Longrightarrow> fresh_within lo hi xs"
  unfolding fresh_within_def by blast

lemma strip_Set_add_all:
  assumes "fresh_within lo hi (s @ xs)"
  shows "map strip_ids (Set_add_all s xs) = Set_add_all (map strip_ids s) (map strip_ids xs)"
  using assms
proof (induction xs arbitrary: s)
  case Nil
  then show ?case by (simp add: Set_add_all_def)
next
  case (Cons x xs)
  have 1: "fresh_within lo hi (s @ [x])"
    by (rule fresh_within_subset[OF Cons.prems]) auto
  have 2: "fresh_within lo hi (Set_add s x @ xs)"
    by (rule fresh_within_subset[OF Cons.prems]) (auto simp: Set_add_def)
  have "Set_add_all s (x # xs) = Set_add_all (Set_add s x) xs"
    by (simp add: Set_add_all_def)
  then have "map strip_ids (Set_add_all s (x # xs))
          = Set_add_all (map strip_ids (Set_add s x)) (map strip_ids xs)"
    using Cons.IH[OF 2] by simp
  also have "\<dots> = Set_add_all (Set_add (map strip_ids s) (strip_ids x)) (map strip_ids xs)"
    by (simp add: strip_Set_add[OF 1])
  also have "\<dots> = Set_add_all (map strip_ids s) (map strip_ids (x # xs))"
    by (simp add: Set_add_all_def)
  finally show ?case .
qed

lemma fresh_within_append:
  assumes "fresh_within lo mid s" "fresh_within mid hi xs" "lo \<le> mid" "mid \<le> hi"
  shows "fresh_within lo hi (s @ xs)"
  by (rule fresh_within_subset[OF fresh_within_union[OF assms]]) (simp add: set_Set_add_all)

lemma pure_handler_courses:
  "queryClass rt mql sel cl = Inr xs \<Longrightarrow> \<forall>x \<in> set xs. fresh_oid x = None"
  "queryDist rt mql sel cl = Inr xs \<Longrightarrow> \<forall>x \<in> set xs. fresh_oid x = None"
  "queryDistCode rt mql sel cl = Inr xs \<Longrightarrow> \<forall>x \<in> set xs. fresh_oid x = None"
  "queryRange rt mql sel cl = Inr xs \<Longrightarrow> \<forall>x \<in> set xs. fresh_oid x = None"
  "queryRangeDist rt mql sel cl = Inr xs \<Longrightarrow> \<forall>x \<in> set xs. fresh_oid x = None"
  "queryRangeTag rt mql sel cl = Inr xs \<Longrightarrow> \<forall>x \<in> set xs. fresh_oid x = None"
  "queryTag rt mql sel cl = Inr xs \<Longrightarrow> \<forall>x \<in> set xs. fresh_oid x = None"
  "queryTagCode rt mql sel cl = Inr xs \<Longrightarrow> \<forall>x \<in> set xs. fresh_oid x = None"
  by (auto simp: queryClass_def queryDist_def queryDistCode_def queryRange_def
        queryRangeDist_def queryRangeTag_def queryTag_def queryTagCode_def Let_def
        split: Selector.splits if_splits entry.splits)

lemma pure_handler_no_uuids:
  "queryClass (no_uuids rt) mql sel cl = queryClass rt mql sel cl"
  "queryDist (no_uuids rt) mql sel cl = queryDist rt mql sel cl"
  "queryDistCode (no_uuids rt) mql sel cl = queryDistCode rt mql sel cl"
  "queryRange (no_uuids rt) mql sel cl = queryRange rt mql sel cl"
  "queryRangeDist (no_uuids rt) mql sel cl = queryRangeDist rt mql sel cl"
  "queryRangeTag (no_uuids rt) mql sel cl = queryRangeTag rt mql sel cl"
  "queryTag (no_uuids rt) mql sel cl = queryTag rt mql sel cl"
  "queryTagCode (no_uuids rt) mql sel cl = queryTagCode rt mql sel cl"
proof -
  have a: "toLowerCase (no_uuids rt) = toLowerCase rt" "Number (no_uuids rt) = Number rt"
    "JSON_stringify (no_uuids rt) = JSON_stringify rt"
    by (simp_all add: no_uuids_def)
  have rs: "range_scan (no_uuids rt) from to ys = range_scan rt from to ys" for "from" to ys
    by (induction ys) (simp_all add: a split: list.splits)
  show "queryClass (no_uuids rt) mql sel cl = queryClass rt mql sel cl"
    unfolding queryClass_def a by (rule refl)
  show "queryDist (no_uuids rt) mql sel cl = queryDist rt mql sel cl"
    unfolding queryDist_def has_dist_def a by (rule refl)
  show "queryDistCode (no_uuids rt) mql sel cl = queryDistCode rt mql sel cl"
    unfolding queryDistCode_def has_dist_def a by (rule refl)
  show "queryRange (no_uuids rt) mql sel cl = queryRange rt mql sel cl"
    unfolding queryRange_def rs a by (rule refl)
  show "queryRangeDist (no_uuids rt) mql sel cl = queryRangeDist rt mql sel cl"
    unfolding queryRangeDist_def by (rule refl)
  show "queryRangeTag (no_uuids rt) mql sel cl = queryRangeTag rt mql sel cl"
    unfolding queryRangeTag_def by (rule refl)
  show "queryTag (no_uuids rt) mql sel cl = queryTag rt mql sel cl"
    unfolding queryTag_def a by (rule refl)
  show "queryTagCode (no_uuids rt) mql sel cl = queryTagCode rt mql sel cl"
    unfolding queryTagCode_def a by (rule refl)
qed

lemma fresh_invariant:
  "lo \<le> allocated w \<Longrightarrow> fresh_within lo (allocated w) fl \<Longrightarrow>
     matchFlatten_loop rt cl mql sels fl w = (r, w') \<Longrightarrow>
     allocated w \<le> allocated w' \<and> (\<forall>xs. r = Inr xs \<longrightarrow> fresh_within lo (allocated w') xs)"
  "selectorVTable rt mql sel cl w = (r, w') \<Longrightarrow>
     allocated w \<le> allocated w'
     \<and> (\<forall>xs. r = Inr xs \<longrightarrow> fresh_within (allocated w) (allocated w') xs)"
proof (induction rt cl mql sels fl w and rt mql sel cl w arbitrary: lo r w' and r w'
       rule: matchFlatten_loop_selectorVTable.induct)
  case (1 rt courseList mql flattened w)
  then show ?case by auto
next
  case (2 rt courseList mql sel rest flattened w)
  obtain r1 w1 where a: "selectorVTable rt mql sel courseList w = (r1, w1)"
    by (cases "selectorVTable rt mql sel courseList w")
  note s = "2.IH"(1)[OF a]
  show ?case
  proof (cases r1)
    case (Inl e)
    with a "2.prems"(3) s show ?thesis by auto
  next
    case (Inr data)
    have d: "fresh_within (allocated w) (allocated w1) data" using s Inr by simp
    have le: "allocated w \<le> allocated w1" using s by simp
    have u: "fresh_within lo (allocated w1) (Set_add_all flattened data)"
      by (rule fresh_within_union[OF "2.prems"(2) d "2.prems"(1) le])
    have l: "lo \<le> allocated w1" using "2.prems"(1) le by simp
    have rest: "matchFlatten_loop rt courseList mql rest (Set_add_all flattened data) w1 = (r, w')"
      using "2.prems"(3) a Inr by simp
    from "2.IH"(2)[OF a[symmetric] Inr l u rest] le show ?thesis by auto
  qed
next
  case (3 rt mql qn ty sels courseList w)
  obtain r1 w1 where a: "matchFlatten_loop rt courseList (MQLQuery qn ty sels) sels [] w = (r1, w1)"
    by (cases "matchFlatten_loop rt courseList (MQLQuery qn ty sels) sels [] w")
  have s: "allocated w \<le> allocated w1"
    using "3.IH"[OF _ _ a, of "allocated w"] by simp
  show ?case
  proof (cases r1)
    case (Inl e)
    with a "3.prems" s show ?thesis by auto
  next
    case (Inr data)
    with a "3.prems" have r: "r = Inr [Nested (allocated w1) data]"
      "w' = w1\<lparr>allocated := Suc (allocated w1)\<rparr>" by auto
    have "fresh_within (allocated w) (allocated w') [Nested (allocated w1) data]"
      by (rule fresh_within_single[of _ "allocated w1"]) (use s r in auto)
    with r s show ?thesis by auto
  qed
next
  case (5 rt mql d courseList w)
  then have r: "r = Inr [ManualFulfillment (allocated w)
         \<lparr>filled = False, id_mf = randomUUID rt (drawn w), ManualFulfillment.description = d\<rparr>]"
      "allocated w' = Suc (allocated w)"
    by (auto simp: queryPlacement_def Let_def)
  have "fresh_within (allocated w) (allocated w') [ManualFulfillment (allocated w)
         \<lparr>filled = False, id_mf = randomUUID rt (drawn w), ManualFulfillment.description = d\<rparr>]"
    by (rule fresh_within_single[of _ "allocated w"]) (use r in auto)
  with r show ?case by auto
qed (auto dest: pure_handler_courses intro: fresh_within_courses)

lemma strip_run_pure:
  assumes "\<And>xs. h = Inr xs \<Longrightarrow> \<forall>x \<in> set xs. fresh_oid x = None"
  shows "strip_run (h, w) = (h, w)"
proof (cases h)
  case (Inl e)
  then show ?thesis by simp
next
  case (Inr xs)
  with assms[OF Inr] show ?thesis by (simp add: map_strip_courses)
qed

lemma strip_homomorphism:
  "lo \<le> allocated w \<Longrightarrow> fresh_within lo (allocated w) fl \<Longrightarrow>
     strip_run (matchFlatten_loop rt cl mql sels fl w)
       = matchFlatten_loop (no_uuids rt) cl mql sels (map strip_ids fl) w"
  "strip_run (selectorVTable rt mql sel cl w) = selectorVTable (no_uuids rt) mql sel cl w"
proof (induction rt cl mql sels fl w and rt mql sel cl w arbitrary: lo and
       rule: matchFlatten_loop_selectorVTable.induct)
  case (1 rt courseList mql flattened w)
  then show ?case by simp
next
  case (2 rt courseList mql sel rest flattened w)
  obtain r1 w1 where a: "selectorVTable rt mql sel courseList w = (r1, w1)"
    by (cases "selectorVTable rt mql sel courseList w")
  have b: "selectorVTable (no_uuids rt) mql sel courseList w = strip_run (r1, w1)"
    using "2.IH"(1) a by simp
  note s = fresh_invariant(2)[OF a]
  show ?case
  proof (cases r1)
    case (Inl e)
    with a b show ?thesis by simp
  next
    case (Inr data)
    have d: "fresh_within (allocated w) (allocated w1) data" using s Inr by simp
    have le: "allocated w \<le> allocated w1" using s by simp
    have u: "fresh_within lo (allocated w1) (Set_add_all flattened data)"
      by (rule fresh_within_union[OF "2.prems"(2) d "2.prems"(1) le])
    have ap: "fresh_within lo (allocated w1) (flattened @ data)"
      by (rule fresh_within_append[OF "2.prems"(2) d "2.prems"(1) le])
    have l: "lo \<le> allocated w1" using "2.prems"(1) le by simp
    have "strip_run (matchFlatten_loop rt courseList mql (sel # rest) flattened w)
          = strip_run (matchFlatten_loop rt courseList mql rest (Set_add_all flattened data) w1)"
      using a Inr by simp
    also have "\<dots> = matchFlatten_loop (no_uuids rt) courseList mql rest
                        (map strip_ids (Set_add_all flattened data)) w1"
      by (rule "2.IH"(2)[OF a[symmetric] Inr l u])
    also have "\<dots> = matchFlatten_loop (no_uuids rt) courseList mql rest
                        (Set_add_all (map strip_ids flattened) (map strip_ids data)) w1"
      by (simp add: strip_Set_add_all[OF ap])
    also have "\<dots> = matchFlatten_loop (no_uuids rt) courseList mql (sel # rest)
                        (map strip_ids flattened) w"
      using b Inr by simp
    finally show ?thesis .
  qed
next
  case (3 rt mql qn ty sels courseList w)
  obtain r1 w1 where a: "matchFlatten_loop rt courseList (MQLQuery qn ty sels) sels [] w = (r1, w1)"
    by (cases "matchFlatten_loop rt courseList (MQLQuery qn ty sels) sels [] w")
  have b: "matchFlatten_loop (no_uuids rt) courseList (MQLQuery qn ty sels) sels [] w
           = strip_run (r1, w1)"
    using "3.IH"[of "allocated w"] a by simp
  show ?case using a b by (cases r1) simp_all
next
  case (5 rt mql d courseList w)
  show ?case by (simp add: queryPlacement_def no_uuids_def)
qed (simp_all add: pure_handler_no_uuids strip_run_pure pure_handler_courses)

lemma fresh_within_mono:
  "fresh_within lo hi xs \<Longrightarrow> hi \<le> hi' \<Longrightarrow> fresh_within lo hi' xs"
  unfolding fresh_within_def by (meson less_le_trans)

lemma match_loop_strip:
  "fresh_within 0 (allocated w) used \<Longrightarrow>
     (case match_loop rt cl reqs (errs, used, rs) w of
        ((e, u, r), w') \<Rightarrow> ((e, map strip_ids u, map strip_query_result r), w'))
     = match_loop (no_uuids rt) cl reqs
         (errs, map strip_ids used, map strip_query_result rs) w"
proof (induction reqs arbitrary: errs used rs w)
  case Nil
  then show ?case by simp
next
  case (Cons req reqs)
  obtain r1 w1 where a: "QueryMatcher_match rt cl (query req) False w = (r1, w1)"
    by (cases "QueryMatcher_match rt cl (query req) False w")
  then have a': "matchFlatten_loop rt cl (query req) (selector (query req)) [] w = (r1, w1)"
    by (simp add: QueryMatcher_match_def matchFlatten_def)
  have b: "QueryMatcher_match (no_uuids rt) cl (query req) False w = strip_run (r1, w1)"
    using strip_homomorphism(1)[of "allocated w" w "[]" rt cl "query req" "selector (query req)"] a'
    by (simp add: QueryMatcher_match_def matchFlatten_def)
  note s = fresh_invariant(1)[OF _ _ a', of "allocated w"]
  have le: "allocated w \<le> allocated w1" using s by simp
  show ?case
  proof (cases r1)
    case (Inl e)
    have "fresh_within 0 (allocated w1) used"
      by (rule fresh_within_mono[OF Cons.prems le])
    from Cons.IH[OF this] show ?thesis using a b Inl by simp
  next
    case (Inr data)
    have d: "fresh_within (allocated w) (allocated w1) data" using s Inr by simp
    have u: "fresh_within 0 (allocated w1) (Set_add_all used data)"
      by (rule fresh_within_union[OF Cons.prems d _ le]) simp
    have ap: "fresh_within 0 (allocated w1) (used @ data)"
      by (rule fresh_within_append[OF Cons.prems d _ le]) simp
    from Cons.IH[OF u] show ?thesis
      using a b Inr by (simp add: strip_Set_add_all[OF ap] strip_query_result_def)
  qed
qed

lemma MQLMatcher_match_strip:
  "map_sum id strip_result (MQLMatcher_match rt cl mql) = MQLMatcher_match (no_uuids rt) cl mql"
proof -
  obtain acc w' where a0:
    "match_loop rt cl (sortedRequirements mql) ([], [], []) initial_world = (acc, w')"
    by (cases "match_loop rt cl (sortedRequirements mql) ([], [], []) initial_world")
  obtain errs used rs where a1: "acc = (errs, used, rs)"
    by (cases acc)
  have "match_loop (no_uuids rt) cl (sortedRequirements mql) ([], [], []) initial_world
          = ((errs, map strip_ids used, map strip_query_result rs), w')"
    using match_loop_strip[of initial_world "[]" rt cl "sortedRequirements mql" "[]" "[]"] a0 a1
    by simp
  then show ?thesis
    using a0 a1
    by (simp add: MQLMatcher_match_def strip_result_def strip_query_result_def)
qed

text \<open>
  Claim C4, as amended. For every catalog and every document, two invocations of
  \<^verbatim>\<open>matchCourses\<close>, in which \<^verbatim>\<open>crypto.randomUUID\<close> may return different values, give the
  same verdict, the same list of errors on failure, and on success results that are equal
  once the \<^verbatim>\<open>id\<close> of every synthesized ManualFulfillment is disregarded.
\<close>

theorem matching_deterministic_up_to_generated_ids:
  "map_sum id strip_result (matchCourses (rt\<lparr>randomUUID := u\<rparr>) cl mql)
     = map_sum id strip_result (matchCourses (rt\<lparr>randomUUID := v\<rparr>) cl mql)"
  by (simp add: matchCourses_def MQLMatcher_match_strip no_uuids_def)

theorem matching_deterministic_up_to_generated_ids_witness:
  "map_sum id strip_result (matchCourses sample_runtime [Course 0 cs201] placement_document)
     = map_sum id strip_result (matchCourses second_runtime [Course 0 cs201] placement_document)"
  using matching_deterministic_up_to_generated_ids
          [where rt = sample_runtime and u = "randomUUID sample_runtime"
             and cl = "[Course 0 cs201]" and mql = placement_document
             and v = other_uuids]
  by (simp add: second_runtime_def)

text \<open>
  Claim C4 as first stated includes the generated ids. Two invocations on the same
  catalog and document that draw different UUIDs return different results when the
  document has a Placement selector.
\<close>

theorem generated_ids_counterexample:
  "matchCourses sample_runtime [Course 0 cs201] placement_document
     = Inr \<lparr>results =
              [\<lparr>QueryResult.requirement =
                  \<lparr>query = MQLQuery (Single 1) Select [Placement ''AP Calc BC''],
                   description = ''calculus'', priority = 1\<rparr>,
                selectedCourses =
                  [ManualFulfillment 0 \<lparr>filled = False, id_mf = ''uuid-0'',
                     ManualFulfillment.description = ''AP Calc BC''\<rparr>]\<rparr>],
            allSelectedCourses =
              [ManualFulfillment 0 \<lparr>filled = False, id_mf = ''uuid-0'',
                 ManualFulfillment.description = ''AP Calc BC''\<rparr>]\<rparr>
   \<and> matchCourses second_runtime [Course 0 cs201] placement_document
     = Inr \<lparr>results =
              [\<lparr>QueryResult.requirement =
                  \<lparr>query = MQLQuery (Single 1) Select [Placement ''AP Calc BC''],
                   description = ''calculus'', priority = 1\<rparr>,
                selectedCourses =
                  [ManualFulfillment 0 \<lparr>filled = False, id_mf = ''other-0'',
                     ManualFulfillment.description = ''AP Calc BC''\<rparr>]\<rparr>],
            allSelectedCourses =
              [ManualFulfillment 0 \<lparr>filled = False, id_mf = ''other-0'',
                 ManualFulfillment.description = ''AP Calc BC''\<rparr>]\<rparr>
   \<and> matchCourses sample_runtime [Course 0 cs201] placement_document
       \<noteq> matchCourses second_runtime [Course 0 cs201] placement_document
   \<and> toLowerCase second_runtime = toLowerCase sample_runtime
   \<and> Number second_runtime = Number sample_runtime
   \<and> JSON_stringify second_runtime = JSON_stringify sample_runtime"
  by (simp add: matchCourses_def MQLMatcher_match_def sortedRequirements_def Array_sort_def
      placement_document_def QueryMatcher_match_def matchFlatten_def queryPlacement_def
      initial_world_def sample_runtime_def second_runtime_def other_uuids_def decimal.simps
      Set_add_all_def Set_add_def)



section \<open>Union of the results in flatten mode\<close>













end
